theory Spec2Isabelle
  imports Main "HOL-Library.Char_ord" "HOL-Library.List_Lexorder" "HOL-Library.Sublist"
begin

section \<open>Exceptions and log events\<close>

text \<open>
  Python exceptions are values of \<open>error\<close>; a function that may raise returns
  \<open>error + 'a\<close> with \<open>Inl\<close> for the exception. \<open>TransportError\<close> stands for whatever
  a call into web3 raises when its provider gives up, \<open>IntegrityError\<close> for the database's
  rejection of a second row with the same \<open>transaction_hash\<close> (the column is declared
  \<open>unique=True\<close>), \<open>DecodingError\<close> for a failure of \<open>rlp.decode\<close>. \<open>RpcUnavailable\<close> is the
  error kind the chain-reader contract names; no function of the source constructs it.
\<close>

datatype error =
    TransportError string
  | IntegrityError
  | ValueError string
  | DecodingError string
  | TypeError string
  | RpcUnavailable

text \<open>One constructor per logger call of the source, carrying the interpolated values.\<close>

datatype log_entry =
    ErrorProcessingBlock int error
  | InfoFetchingBatches int int
  | InfoStoredBatches nat
  | ErrorFetchingBatches error
  | ErrorRlpDecoding error
  | ErrorBlobDecoding error
  | ErrorBatchDecoding error
  | ErrorProcessingBatch int error

section \<open>Configuration (config/settings.py)\<close>

definition BATCH_SIZE :: int where
  "BATCH_SIZE = 100"

text \<open>
  \<open>WORLD_CHAIN_ADDRESS\<close> is read from the process environment, so the functions that
  use it take it as the parameter \<open>addr\<close>.
\<close>

section \<open>Data\<close>

type_synonym bytes = "char list"

text \<open>
  A transaction as web3 returns it inside a full block. \<open>tx_type\<close> is \<open>tx.get('type')\<close>
  (\<open>None\<close> when the key is missing), \<open>tx_to\<close> is \<open>tx['to']\<close> (\<open>None\<close> for a contract
  creation), \<open>tx_hash\<close> is the string \<open>tx['hash'].hex()\<close>, and \<open>blobVersionedHashes\<close> is
  \<open>None\<close> when the key is missing.
\<close>

record transaction =
  tx_type :: "int option"
  tx_to :: "string option"
  tx_hash :: string
  blobVersionedHashes :: "string list option"

record block =
  transactions :: "transaction list"

text \<open>The dictionary that \<open>get_world_chain_batches\<close> builds for a matching transaction.\<close>

record batch =
  block_number :: int
  transaction_hash :: string
  raw_data :: transaction

text \<open>A row of table \<open>batch_submissions\<close>: the three columns above and the generated ones.\<close>

record batch_submission = batch +
  id :: int
  timestamp :: nat
  processed :: int

section \<open>web3 and the client (data_acquisition/l1_client.py)\<close>

text \<open>
  web3 and the node behind it are outside the program. \<open>eth_block_number env k\<close> and
  \<open>eth_get_block env k n\<close> are what the call \<open>w3.eth.block_number\<close> or
  \<open>w3.eth.get_block(n, full_transactions=True)\<close> ends with when \<open>k\<close> calls into web3
  have been made before it: the value, or the exception the call raises. The HTTP provider
  may send a request more than once before it gives up; that happens inside the call, and
  the exception is what the call raises in the end. The outcome may change from one call
  to the next (a timeout now, the block a moment later). \<open>rpc_calls\<close> counts the calls the
  client has made into web3. \<open>utcnow k\<close> is the wall clock read after \<open>k\<close> calls.
\<close>

record environment =
  eth_block_number :: "nat \<Rightarrow> error + int"
  eth_get_block :: "nat \<Rightarrow> int \<Rightarrow> error + block"
  utcnow :: "nat \<Rightarrow> nat"

record l1_client =
  rpc_calls :: nat
  client_log :: "log_entry list"

definition call_made :: "l1_client \<Rightarrow> l1_client" where
  "call_made c = c\<lparr>rpc_calls := Suc (rpc_calls c)\<rparr>"

definition get_latest_block :: "environment \<Rightarrow> l1_client \<Rightarrow> (error + int) \<times> l1_client" where
  "get_latest_block env c = (eth_block_number env (rpc_calls c), call_made c)"

definition get_block :: "environment \<Rightarrow> l1_client \<Rightarrow> int \<Rightarrow> (error + block) \<times> l1_client" where
  "get_block env c block_num = (eth_get_block env (rpc_calls c) block_num, call_made c)"

text \<open>The loop of \<open>get_blob_transactions\<close>: keep the transactions of type 3.\<close>

fun blob_txs_loop :: "transaction list \<Rightarrow> transaction list \<Rightarrow> transaction list" where
  "blob_txs_loop [] blob_txs = blob_txs"
| "blob_txs_loop (tx # txs) blob_txs =
     (if tx_type tx = Some 3 then blob_txs_loop txs (blob_txs @ [tx])
      else blob_txs_loop txs blob_txs)"

definition get_blob_transactions ::
  "environment \<Rightarrow> l1_client \<Rightarrow> int \<Rightarrow> (error + transaction list) \<times> l1_client" where
  "get_blob_transactions env c block_num =
     (case get_block env c block_num of
        (Inl e, c') \<Rightarrow> (Inl e, c')
      | (Inr b, c') \<Rightarrow> (Inr (blob_txs_loop (transactions b) []), c'))"

text \<open>
  \<open>str.lower()\<close> on the ASCII range, which holds every character of a hexadecimal
  address: the letters A to Z are replaced, every other character is kept.
\<close>

definition lower_char :: "char \<Rightarrow> char" where
  "lower_char c =
     (case map_of (zip ''ABCDEFGHIJKLMNOPQRSTUVWXYZ'' ''abcdefghijklmnopqrstuvwxyz'') c of
        Some l \<Rightarrow> l
      | None \<Rightarrow> c)"

definition lower :: "string \<Rightarrow> string" where
  "lower s = map lower_char s"

text \<open>
  The test \<open>tx['to'] and tx['to'].lower() == WORLD_CHAIN_ADDRESS.lower()\<close>: \<open>None\<close> and
  the empty string are falsy.
\<close>

definition to_matches :: "string \<Rightarrow> transaction \<Rightarrow> bool" where
  "to_matches addr tx =
     (case tx_to tx of
        None \<Rightarrow> False
      | Some a \<Rightarrow> a \<noteq> [] \<and> lower a = lower addr)"

definition make_batch :: "int \<Rightarrow> transaction \<Rightarrow> batch" where
  "make_batch block_num tx =
     \<lparr>block_number = block_num, transaction_hash = tx_hash tx, raw_data = tx\<rparr>"

text \<open>The inner loop of \<open>get_world_chain_batches\<close> over the blob transactions of one block.\<close>

fun append_matching :: "string \<Rightarrow> int \<Rightarrow> transaction list \<Rightarrow> batch list \<Rightarrow> batch list" where
  "append_matching addr block_num [] batches = batches"
| "append_matching addr block_num (tx # txs) batches =
     (if to_matches addr tx
      then append_matching addr block_num txs (batches @ [make_batch block_num tx])
      else append_matching addr block_num txs batches)"

text \<open>
  The outer loop over \<open>range(start_block, end_block + 1)\<close>. An exception raised while a
  block is processed is logged and the loop continues with the next block.
\<close>

fun scan_blocks ::
  "environment \<Rightarrow> string \<Rightarrow> int list \<Rightarrow> l1_client \<Rightarrow> batch list \<Rightarrow> batch list \<times> l1_client" where
  "scan_blocks env addr [] c batches = (batches, c)"
| "scan_blocks env addr (block_num # rest) c batches =
     (case get_blob_transactions env c block_num of
        (Inl e, c') \<Rightarrow>
          scan_blocks env addr rest
            (c'\<lparr>client_log := client_log c' @ [ErrorProcessingBlock block_num e]\<rparr>) batches
      | (Inr blob_txs, c') \<Rightarrow>
          scan_blocks env addr rest c' (append_matching addr block_num blob_txs batches))"

definition get_world_chain_batches ::
  "environment \<Rightarrow> string \<Rightarrow> l1_client \<Rightarrow> int \<Rightarrow> int option
     \<Rightarrow> (error + batch list) \<times> l1_client" where
  "get_world_chain_batches env addr c start_block end_block =
     (case end_block of
        Some e \<Rightarrow>
          (case scan_blocks env addr [start_block..e] c [] of
             (batches, c') \<Rightarrow> (Inr batches, c'))
      | None \<Rightarrow>
          (case get_latest_block env c of
             (Inl err, c') \<Rightarrow> (Inl err, c')
           | (Inr e, c') \<Rightarrow>
               (case scan_blocks env addr [start_block..e] c' [] of
                  (batches, c'') \<Rightarrow> (Inr batches, c''))))"

section \<open>The store and the fetcher (data_acquisition/batch_fetcher.py)\<close>

text \<open>
  The table is the list of its rows in insertion order, which is the order a query without
  \<open>ORDER BY\<close> scans it in. \<open>id\<close> is the generated primary key, \<open>timestamp\<close> the
  column default \<open>datetime.utcnow\<close>, \<open>processed\<close> defaults to 0. The ids a commit hands
  out count on from the number of rows, which is the largest id of a table that was only
  ever filled by such commits, and the rows of one commit share one clock reading.
\<close>

fun new_rows :: "int \<Rightarrow> nat \<Rightarrow> batch list \<Rightarrow> batch_submission list" where
  "new_rows next_id now [] = []"
| "new_rows next_id now (b # bs) =
     \<lparr>block_number = block_number b, transaction_hash = transaction_hash b,
      raw_data = raw_data b, id = next_id, timestamp = now, processed = 0\<rparr>
     # new_rows (next_id + 1) now bs"

text \<open>
  \<open>session.add\<close> for every batch of the window followed by \<open>session.commit()\<close>. The
  unique constraint on \<open>transaction_hash\<close> makes the commit raise when two of the added
  rows share a hash or when one of them has the hash of a stored row; then nothing of the
  window is stored. This is the one failure of the commit that the source itself declares,
  and the only one \<open>commit\<close> has. The database layer can make a commit raise for reasons
  of its own, among them a \<open>raw_data\<close> that it cannot write into the JSON column; such a
  commit takes the same \<open>except\<close> branch as \<open>IntegrityError\<close> does: nothing of the window
  is stored and the pointer moves on by \<open>BATCH_SIZE\<close>. So \<open>commit\<close> may succeed where
  the program's commit raises, never the other way round.
\<close>

definition commit ::
  "batch_submission list \<Rightarrow> nat \<Rightarrow> batch list \<Rightarrow> error + batch_submission list" where
  "commit table now batches =
     (if distinct (map transaction_hash batches)
         \<and> list_all (\<lambda>b. transaction_hash b \<notin> set (map transaction_hash table)) batches
      then Inr (table @ new_rows (int (length table) + 1) now batches)
      else Inl IntegrityError)"

record batch_fetcher =
  l1 :: l1_client
  rows :: "batch_submission list"
  fetcher_log :: "log_entry list"

definition log_fetcher :: "log_entry \<Rightarrow> batch_fetcher \<Rightarrow> batch_fetcher" where
  "log_fetcher entry f = f\<lparr>fetcher_log := fetcher_log f @ [entry]\<rparr>"

text \<open>
  One pass through the body of the \<open>while\<close> loop of \<open>fetch_batches\<close>: the new value of
  \<open>current_block\<close> and the fetcher after the pass.
\<close>

definition fetch_window ::
  "environment \<Rightarrow> string \<Rightarrow> int \<Rightarrow> int \<Rightarrow> batch_fetcher \<Rightarrow> int \<times> batch_fetcher" where
  "fetch_window env addr end_block current_block f =
     (let batch_end = min (current_block + BATCH_SIZE - 1) end_block;
          f1 = log_fetcher (InfoFetchingBatches current_block batch_end) f
      in case get_world_chain_batches env addr (l1 f1) current_block (Some batch_end) of
           (Inl e, c') \<Rightarrow>
             (current_block + BATCH_SIZE, log_fetcher (ErrorFetchingBatches e) (f1\<lparr>l1 := c'\<rparr>))
         | (Inr batches, c') \<Rightarrow>
             (case commit (rows f1) (utcnow env (rpc_calls c')) batches of
                Inl e \<Rightarrow>
                  (current_block + BATCH_SIZE,
                   log_fetcher (ErrorFetchingBatches e) (f1\<lparr>l1 := c'\<rparr>))
              | Inr table' \<Rightarrow>
                  (batch_end + 1,
                   log_fetcher (InfoStoredBatches (length batches))
                     (f1\<lparr>l1 := c', rows := table'\<rparr>))))"

text \<open>The \<open>while current_block <= end_block\<close> loop.\<close>

function fetch_loop ::
  "environment \<Rightarrow> string \<Rightarrow> int \<Rightarrow> int \<Rightarrow> batch_fetcher \<Rightarrow> int \<times> batch_fetcher" where
  "fetch_loop env addr end_block current_block f =
     (if current_block \<le> end_block
      then (case fetch_window env addr end_block current_block f of
              (current_block', f') \<Rightarrow> fetch_loop env addr end_block current_block' f')
      else (current_block, f))"
  by pat_completeness auto

termination fetch_loop
proof (relation "measure (\<lambda>(env, addr, end_block, current_block, f). nat (end_block + 1 - current_block))", goal_cases)
  case 1
  show ?case by simp
next
  case (2 env addr end_block current_block f current_block' f')
  have "current_block < fst (fetch_window env addr end_block current_block f)"
    using 2(1)
    by (simp add: fetch_window_def BATCH_SIZE_def Let_def split: prod.splits sum.splits)
  then have "current_block < current_block'"
    by (simp add: 2(2) [symmetric])
  with 2 show ?case
    by (simp add: 2(2) [symmetric])
qed

declare fetch_loop.simps [simp del]

text \<open>
  \<open>fetch_batches\<close>. With \<open>end_block = None\<close> the latest block number is asked for first,
  outside the \<open>try\<close>, so its exception leaves the function. The method returns nothing;
  the model returns the last value of \<open>current_block\<close> beside the fetcher.
\<close>

definition fetch_batches ::
  "environment \<Rightarrow> string \<Rightarrow> batch_fetcher \<Rightarrow> int \<Rightarrow> int option
     \<Rightarrow> (error + int) \<times> batch_fetcher" where
  "fetch_batches env addr f start_block end_block =
     (case end_block of
        Some e \<Rightarrow>
          (case fetch_loop env addr e start_block f of
             (current_block, f') \<Rightarrow> (Inr current_block, f'))
      | None \<Rightarrow>
          (case get_latest_block env (l1 f) of
             (Inl err, c') \<Rightarrow> (Inl err, f\<lparr>l1 := c'\<rparr>)
           | (Inr e, c') \<Rightarrow>
               (case fetch_loop env addr e start_block (f\<lparr>l1 := c'\<rparr>) of
                  (current_block, f') \<Rightarrow> (Inr current_block, f'))))"

text \<open>
  \<open>get_unprocessed_batches\<close> is \<open>query(BatchSubmission).filter_by(processed=0).all()\<close>,
  a query without an \<open>ORDER BY\<close>: the rows come in table order.
\<close>

definition get_unprocessed_batches :: "batch_fetcher \<Rightarrow> batch_submission list" where
  "get_unprocessed_batches f = filter (\<lambda>r. processed r = 0) (rows f)"

definition mark_row :: "int \<Rightarrow> batch_submission \<Rightarrow> batch_submission" where
  "mark_row batch_id r = (if id r = batch_id then r\<lparr>processed := 1\<rparr> else r)"

definition mark_as_processed :: "batch_fetcher \<Rightarrow> int \<Rightarrow> batch_fetcher" where
  "mark_as_processed f batch_id = f\<lparr>rows := map (mark_row batch_id) (rows f)\<rparr>"

text \<open>
  An environment whose answers do not change from one call to the next: the same chain
  and the same head at every call.
\<close>

definition steady_node ::
  "(error + int) \<Rightarrow> (int \<Rightarrow> error + block) \<Rightarrow> (nat \<Rightarrow> nat) \<Rightarrow> environment" where
  "steady_node head chain clock =
     \<lparr>eth_block_number = (\<lambda>k. head), eth_get_block = (\<lambda>k. chain), utcnow = clock\<rparr>"

section \<open>The decoder (decoding/batch_decoder.py)\<close>

text \<open>
  \<open>rlp.decode\<close> and \<open>eth_utils.to_hex\<close> are library functions; the decoder takes them
  as the record \<open>library\<close>. An RLP value is a byte string or a list of RLP values.
  \<open>to_hex\<close> accepts bytes and integers and raises \<open>TypeError\<close> on a list.
\<close>

datatype rlp_item = RlpBytes bytes | RlpList "rlp_item list"

record library =
  rlp_decode :: "bytes \<Rightarrow> error + rlp_item"
  to_hex_bytes :: "bytes \<Rightarrow> string"
  to_hex_int :: "nat \<Rightarrow> string"

record decoded_blob =
  blob_raw_data :: string
  decoded_data :: "string list"
  blob_size :: nat

record decoded_batch =
  batch_block_number :: int
  batch_transaction_hash :: string
  blobs :: "decoded_blob list"

definition decode_rlp ::
  "library \<Rightarrow> log_entry list \<Rightarrow> bytes \<Rightarrow> (error + rlp_item) \<times> log_entry list" where
  "decode_rlp lib log data =
     (case rlp_decode lib data of
        Inl e \<Rightarrow> (Inl e, log @ [ErrorRlpDecoding e])
      | Inr v \<Rightarrow> (Inr v, log))"

text \<open>
  \<open>[to_hex(item) for item in decoded]\<close>: iterating a byte string yields its bytes as
  integers, iterating a list yields its items; the comprehension stops at the first item
  \<open>to_hex\<close> rejects.
\<close>

fun to_hex_items :: "library \<Rightarrow> rlp_item list \<Rightarrow> error + string list" where
  "to_hex_items lib [] = Inr []"
| "to_hex_items lib (RlpBytes b # items) =
     (case to_hex_items lib items of
        Inl e \<Rightarrow> Inl e
      | Inr hs \<Rightarrow> Inr (to_hex_bytes lib b # hs))"
| "to_hex_items lib (RlpList l # items) = Inl (TypeError ''Unsupported type'')"

definition to_hex_decoded :: "library \<Rightarrow> rlp_item \<Rightarrow> error + string list" where
  "to_hex_decoded lib decoded =
     (case decoded of
        RlpBytes b \<Rightarrow> Inr (map (\<lambda>c. to_hex_int lib (of_char c)) b)
      | RlpList items \<Rightarrow> to_hex_items lib items)"

definition decode_blob ::
  "library \<Rightarrow> log_entry list \<Rightarrow> bytes \<Rightarrow> (error + decoded_blob) \<times> log_entry list" where
  "decode_blob lib log blob_content =
     (case decode_rlp lib log blob_content of
        (Inl e, log') \<Rightarrow> (Inl e, log' @ [ErrorBlobDecoding e])
      | (Inr decoded, log') \<Rightarrow>
          (case to_hex_decoded lib decoded of
             Inl e \<Rightarrow> (Inl e, log' @ [ErrorBlobDecoding e])
           | Inr hs \<Rightarrow>
               (Inr \<lparr>blob_raw_data = to_hex_bytes lib blob_content, decoded_data = hs,
                     blob_size = length blob_content\<rparr>, log')))"

text \<open>The placeholder \<open>_fetch_blob_content\<close>: \<open>return b''\<close>.\<close>

definition fetch_blob_content :: "string \<Rightarrow> bytes" where
  "fetch_blob_content blob_hash = []"

text \<open>
  The \<open>for blob_hash in blob_data\<close> loop of \<open>decode_batch\<close>. The fetch method is looked
  up on \<open>self\<close>, so the loop is written over the fetch function \<open>fetch\<close>; empty content
  is falsy and skipped.
\<close>

fun decode_blobs ::
  "library \<Rightarrow> (string \<Rightarrow> bytes) \<Rightarrow> string list \<Rightarrow> log_entry list \<Rightarrow> decoded_blob list
     \<Rightarrow> (error + decoded_blob list) \<times> log_entry list" where
  "decode_blobs lib fetch [] log acc = (Inr acc, log)"
| "decode_blobs lib fetch (blob_hash # rest) log acc =
     (if fetch blob_hash \<noteq> []
      then (case decode_blob lib log (fetch blob_hash) of
              (Inl e, log') \<Rightarrow> (Inl e, log')
            | (Inr decoded_blob, log') \<Rightarrow>
                decode_blobs lib fetch rest log' (acc @ [decoded_blob]))
      else decode_blobs lib fetch rest log acc)"

text \<open>
  \<open>blob_data_of\<close> is \<open>batch_data['raw_data'].get('blobVersionedHashes', [])\<close>.
  \<open>decode_batch_with\<close> is \<open>decode_batch\<close> over a given fetch function. It reads the keys
  \<open>block_number\<close>, \<open>transaction_hash\<close> and \<open>raw_data\<close> of its argument, a dictionary
  (\<open>batch_data: Dict\<close>); the type admits any record that has these three fields, so that a
  dictionary with further keys is an argument too. Every exception is logged and raised
  again.
\<close>

definition blob_data_of :: "'a batch_scheme \<Rightarrow> string list" where
  "blob_data_of batch_data =
     (case blobVersionedHashes (raw_data batch_data) of None \<Rightarrow> [] | Some hs \<Rightarrow> hs)"

definition decode_batch_with ::
  "library \<Rightarrow> (string \<Rightarrow> bytes) \<Rightarrow> log_entry list \<Rightarrow> 'a batch_scheme
     \<Rightarrow> (error + decoded_batch) \<times> log_entry list" where
  "decode_batch_with lib fetch log batch_data =
     (let blob_data = blob_data_of batch_data
      in if blob_data = []
         then (Inl (ValueError ''No blob data found in transaction''),
               log @ [ErrorBatchDecoding (ValueError ''No blob data found in transaction'')])
         else (case decode_blobs lib fetch blob_data log [] of
                 (Inl e, log') \<Rightarrow> (Inl e, log' @ [ErrorBatchDecoding e])
               | (Inr decoded_blobs, log') \<Rightarrow>
                   (Inr \<lparr>batch_block_number = block_number batch_data,
                         batch_transaction_hash = transaction_hash batch_data,
                         blobs = decoded_blobs\<rparr>, log')))"

definition decode_batch ::
  "library \<Rightarrow> log_entry list \<Rightarrow> 'a batch_scheme \<Rightarrow> (error + decoded_batch) \<times> log_entry list" where
  "decode_batch lib log batch_data = decode_batch_with lib fetch_blob_content log batch_data"

text \<open>\<open>extract_l2_transactions\<close>: the loop body is \<open>pass\<close>.\<close>

type_synonym l2_transaction = "(string \<times> string) list"

fun extract_loop :: "decoded_blob list \<Rightarrow> l2_transaction list \<Rightarrow> l2_transaction list" where
  "extract_loop [] l2_txs = l2_txs"
| "extract_loop (blob # rest) l2_txs = extract_loop rest l2_txs"

definition extract_l2_transactions :: "decoded_batch \<Rightarrow> l2_transaction list" where
  "extract_l2_transactions decoded_batch = extract_loop (blobs decoded_batch) []"

section \<open>The decode pass of main.py\<close>

text \<open>
  The \<open>for batch in unprocessed_batches\<close> loop. \<open>main\<close> hands the stored row to the
  decoder; the loop is written over the decoding function \<open>decode\<close>. A batch that decodes
  has its metrics appended to \<open>metrics_data\<close> and is marked processed; the metrics are
  floating-point aggregates and a clock reading computed from the decoded batch, and
  the model keeps the decoded batch in their place. Any exception is logged with the id
  of the batch and the loop continues.
\<close>

record main_state =
  fetcher :: batch_fetcher
  metrics_data :: "decoded_batch list"
  main_log :: "log_entry list"

fun process_batches ::
  "(batch_submission \<Rightarrow> error + decoded_batch) \<Rightarrow> main_state \<Rightarrow> batch_submission list
     \<Rightarrow> main_state" where
  "process_batches decode st [] = st"
| "process_batches decode st (b # rest) =
     (case decode b of
        Inl e \<Rightarrow>
          process_batches decode
            (st\<lparr>main_log := main_log st @ [ErrorProcessingBatch (id b) e]\<rparr>) rest
      | Inr decoded_batch \<Rightarrow>
          process_batches decode
            (st\<lparr>metrics_data := metrics_data st @ [decoded_batch],
                fetcher := mark_as_processed (fetcher st) (id b)\<rparr>) rest)"

section \<open>What one block and one record contribute\<close>

text \<open>
  The batches that one block contributes, as a function of the node's answer for that
  block alone: nothing when the call fails, otherwise one batch for each transaction of
  type 3 whose destination matches. \<open>decoded_of\<close> and \<open>failure_of\<close> are what one row
  contributes to \<open>metrics_data\<close> and to the log of \<open>main\<close>.
\<close>

definition batches_of_answer :: "string \<Rightarrow> int \<Rightarrow> error + block \<Rightarrow> batch list" where
  "batches_of_answer addr block_num answer =
     (case answer of
        Inl e \<Rightarrow> []
      | Inr b \<Rightarrow>
          map (make_batch block_num)
            (filter (\<lambda>tx. tx_type tx = Some 3 \<and> to_matches addr tx) (transactions b)))"

definition decoded_of ::
  "(batch_submission \<Rightarrow> error + decoded_batch) \<Rightarrow> batch_submission \<Rightarrow> decoded_batch list" where
  "decoded_of decode b = (case decode b of Inl e \<Rightarrow> [] | Inr d \<Rightarrow> [d])"

definition failure_of ::
  "(batch_submission \<Rightarrow> error + decoded_batch) \<Rightarrow> batch_submission \<Rightarrow> log_entry list" where
  "failure_of decode b =
     (case decode b of Inl e \<Rightarrow> [ErrorProcessingBatch (id b) e] | Inr d \<Rightarrow> [])"

text \<open>
  \<open>store_batches\<close> is what the \<open>try\<close>/\<open>except\<close> of one window does to the table: the
  committed table, or the table as it was when the commit raises and the session is rolled
  back. \<open>window_batches\<close> are the batches of the window that starts at \<open>current_block\<close> when
  every call for block \<open>n\<close> is answered by \<open>chain n\<close>.
\<close>

definition store_batches ::
  "batch_submission list \<Rightarrow> nat \<Rightarrow> batch list \<Rightarrow> batch_submission list" where
  "store_batches table now batches =
     (case commit table now batches of Inl e \<Rightarrow> table | Inr table' \<Rightarrow> table')"

definition window_batches ::
  "string \<Rightarrow> (int \<Rightarrow> error + block) \<Rightarrow> int \<Rightarrow> int \<Rightarrow> batch list" where
  "window_batches addr chain end_block current_block =
     concat (map (\<lambda>n. batches_of_answer addr n (chain n))
               [current_block..min (current_block + BATCH_SIZE - 1) end_block])"

text \<open>
  \<open>pending_ordered\<close> is the order the store contract asks of the pending records:
  ascending \<open>block_number\<close>, then \<open>transaction_hash\<close>.
\<close>

definition pending_ordered :: "batch_submission list \<Rightarrow> bool" where
  "pending_ordered rs =
     sorted_wrt (\<lambda>a b. block_number a < block_number b
        \<or> (block_number a = block_number b \<and> transaction_hash a \<le> transaction_hash b)) rs"

section \<open>Sample inputs\<close>

text \<open>
  A library whose \<open>rlp.decode\<close> accepts the content \<open>ok\<close> alone, a blob transaction
  with two versioned hashes, and the stored row that carries it.
\<close>

definition sample_library :: library where
  "sample_library =
     \<lparr>rlp_decode = (\<lambda>data. if data = ''ok'' then Inr (RlpList [RlpBytes ''a''])
                            else Inl (DecodingError ''malformed'')),
      to_hex_bytes = (\<lambda>b. ''0x'' @ b),
      to_hex_int = (\<lambda>n. ''0x'')\<rparr>"

definition sample_tx :: transaction where
  "sample_tx =
     \<lparr>tx_type = Some 3, tx_to = Some ''0xAb'', tx_hash = ''aa'',
      blobVersionedHashes = Some [''0x01'', ''0x02'']\<rparr>"

definition sample_row :: batch_submission where
  "sample_row =
     \<lparr>block_number = 100, transaction_hash = ''aa'', raw_data = sample_tx,
      id = 1, timestamp = 7, processed = 0\<rparr>"

text \<open>
  The same row without versioned hashes, two fetch functions (one finds well-formed
  content for the first hash and nothing for the second, the other finds malformed content
  for the second), and an environment in which the first call into web3 ends in a timeout.
\<close>

definition empty_blob_row :: batch_submission where
  "empty_blob_row =
     \<lparr>block_number = 100, transaction_hash = ''ff'',
      raw_data = sample_tx\<lparr>tx_hash := ''ff'', blobVersionedHashes := Some []\<rparr>,
      id = 2, timestamp = 7, processed = 0\<rparr>"


definition sample_fetch :: "string \<Rightarrow> bytes" where
  "sample_fetch h = (if h = ''0x01'' then ''ok'' else [])"

definition bad_fetch :: "string \<Rightarrow> bytes" where
  "bad_fetch h = (if h = ''0x01'' then ''ok'' else ''bad'')"

text \<open>
  A rollup address in mixed case and transactions around it: \<open>tx_bb\<close> is addressed to it in
  another spelling, \<open>tx_other\<close> is a blob transaction to another address, \<open>tx_legacy\<close> is
  not a blob transaction. \<open>sample_chain\<close> holds them in block 100, fails on block 101 and
  has one more batch in block 102. \<open>retry_node\<close> fails on block 101 at the second call
  only. \<open>stocked_fetcher\<close> already holds \<open>sample_row\<close>; \<open>unordered_fetcher\<close> holds two
  unprocessed rows of block 100 that were inserted in the order \<open>bb\<close>, \<open>aa\<close>.
\<close>

definition sample_address :: string where
  "sample_address = ''0xAb''"

definition tx_bb :: transaction where
  "tx_bb = sample_tx\<lparr>tx_to := Some ''0xaB'', tx_hash := ''bb''\<rparr>"

definition tx_other :: transaction where
  "tx_other = sample_tx\<lparr>tx_to := Some ''0xCd'', tx_hash := ''cc''\<rparr>"

definition tx_legacy :: transaction where
  "tx_legacy = sample_tx\<lparr>tx_type := Some 2, tx_hash := ''dd''\<rparr>"

definition tx_ee :: transaction where
  "tx_ee = sample_tx\<lparr>tx_hash := ''ee''\<rparr>"

definition sample_chain :: "int \<Rightarrow> error + block" where
  "sample_chain n =
     (if n = 100 then Inr \<lparr>transactions = [tx_bb, sample_tx, tx_other, tx_legacy]\<rparr>
      else if n = 101 then Inl (TransportError ''timed out'')
      else if n = 102 then Inr \<lparr>transactions = [tx_ee]\<rparr>
      else Inr \<lparr>transactions = []\<rparr>)"

definition sample_node :: environment where
  "sample_node = steady_node (Inr 102) sample_chain (\<lambda>k. k)"

definition retry_node :: environment where
  "retry_node =
     \<lparr>eth_block_number = (\<lambda>k. Inr 101),
      eth_get_block = (\<lambda>k n.
         if n = 100 then Inr \<lparr>transactions = [sample_tx, tx_bb]\<rparr>
         else if n = 101 then (if k = 1 then Inl (TransportError ''timed out'')
                               else Inr \<lparr>transactions = [tx_ee]\<rparr>)
         else Inr \<lparr>transactions = []\<rparr>),
      utcnow = (\<lambda>k. k)\<rparr>"

definition new_client :: l1_client where
  "new_client = \<lparr>rpc_calls = 0, client_log = []\<rparr>"

definition new_fetcher :: batch_fetcher where
  "new_fetcher = \<lparr>l1 = new_client, rows = [], fetcher_log = []\<rparr>"

definition stocked_fetcher :: batch_fetcher where
  "stocked_fetcher = new_fetcher\<lparr>rows := [sample_row]\<rparr>"

definition row_bb :: batch_submission where
  "row_bb =
     \<lparr>block_number = 100, transaction_hash = ''bb'', raw_data = tx_bb,
      id = 1, timestamp = 7, processed = 0\<rparr>"

definition row_aa :: batch_submission where
  "row_aa =
     \<lparr>block_number = 100, transaction_hash = ''aa'', raw_data = sample_tx,
      id = 2, timestamp = 8, processed = 0\<rparr>"

definition unordered_fetcher :: batch_fetcher where
  "unordered_fetcher = new_fetcher\<lparr>rows := [row_bb, row_aa]\<rparr>"

definition new_main :: main_state where
  "new_main = \<lparr>fetcher = stocked_fetcher, metrics_data = [], main_log = []\<rparr>"


section \<open>The decoder: what it returns\<close>

lemma extract_loop_keeps: "extract_loop bs txs = txs"
  by (induction bs arbitrary: txs) simp_all

lemma decode_blobs_placeholder:
  "decode_blobs lib fetch_blob_content hs log acc = (Inr acc, log)"
  by (induction hs arbitrary: log acc) (simp_all add: fetch_blob_content_def)

lemma decode_batch_placeholder:
  "decode_batch lib log r =
     (if blob_data_of r = []
      then (Inl (ValueError ''No blob data found in transaction''),
            log @ [ErrorBatchDecoding (ValueError ''No blob data found in transaction'')])
      else (Inr \<lparr>batch_block_number = block_number r,
                 batch_transaction_hash = transaction_hash r, blobs = []\<rparr>, log))"
  by (simp add: decode_batch_def decode_batch_with_def decode_blobs_placeholder Let_def)

lemma decode_blob_log_free:
  "fst (decode_blob lib log1 content) = fst (decode_blob lib log2 content)"
  by (simp add: decode_blob_def decode_rlp_def split: sum.splits)

lemma decode_blobs_log_free:
  "fst (decode_blobs lib fetch hs log1 acc) = fst (decode_blobs lib fetch hs log2 acc)"
proof (induction hs arbitrary: log1 log2 acc)
  case Nil
  show ?case by simp
next
  case (Cons h hs)
  show ?case
  proof (cases "fetch h = []")
    case True
    then show ?thesis using Cons.IH by simp
  next
    case False
    obtain r1 l1 where d1: "decode_blob lib log1 (fetch h) = (r1, l1)"
      by (cases "decode_blob lib log1 (fetch h)")
    obtain r2 l2 where d2: "decode_blob lib log2 (fetch h) = (r2, l2)"
      by (cases "decode_blob lib log2 (fetch h)")
    from decode_blob_log_free [of lib log1 "fetch h" log2] d1 d2 have eq: "r1 = r2"
      by simp
    show ?thesis
    proof (cases r1)
      case (Inl e)
      with d1 d2 eq have "decode_blob lib log1 (fetch h) = (Inl e, l1)"
        and "decode_blob lib log2 (fetch h) = (Inl e, l2)" by simp_all
      with False show ?thesis by simp
    next
      case (Inr b)
      with d1 d2 eq have "decode_blob lib log1 (fetch h) = (Inr b, l1)"
        and "decode_blob lib log2 (fetch h) = (Inr b, l2)" by simp_all
      with False Cons.IH [of l1 "acc @ [b]" l2] show ?thesis by simp
    qed
  qed
qed

text \<open>
  C5. Decoding is deterministic. What \<open>decode_batch\<close> returns is a function of the
  versioned hashes, the block number and the transaction hash of the record alone: it is
  the same whatever the decoder has logged before (so for any number of earlier
  invocations) and whatever the row's generated columns are, among them the wall-clock
  \<open>timestamp\<close>. The hashes are read in list order. This also holds for the loop over any
  fetch function, where blobs are decoded.
\<close>

theorem decode_batch_deterministic:
  "fst (decode_batch_with lib fetch log1 (r\<lparr>id := i, timestamp := t, processed := p\<rparr>))
     = fst (decode_batch_with lib fetch log2 r)
   \<and> fst (decode_batch lib log1 (r\<lparr>id := i, timestamp := t, processed := p\<rparr>))
     = fst (decode_batch lib log2 r)"
proof -
  have w: "fst (decode_batch_with lib f log1 (r\<lparr>id := i, timestamp := t, processed := p\<rparr>))
     = fst (decode_batch_with lib f log2 r)" for f
  proof -
    let ?hs = "blob_data_of r"
    have "fst (decode_blobs lib f ?hs log1 []) = fst (decode_blobs lib f ?hs log2 [])"
      by (rule decode_blobs_log_free)
    then show ?thesis
      by (cases "decode_blobs lib f ?hs log1 []"; cases "decode_blobs lib f ?hs log2 []")
         (auto simp add: decode_batch_with_def blob_data_of_def Let_def split: sum.splits)
  qed
  show ?thesis
    by (simp add: decode_batch_def w)
qed

theorem decode_batch_deterministic_witness:
  "fst (decode_batch_with sample_library (\<lambda>h. ''ok'') []
          (sample_row\<lparr>id := 9, timestamp := 99, processed := 1\<rparr>))
     = fst (decode_batch_with sample_library (\<lambda>h. ''ok'')
          [ErrorRlpDecoding RpcUnavailable] sample_row)
   \<and> fst (decode_batch sample_library [] (sample_row\<lparr>id := 9, timestamp := 99, processed := 1\<rparr>))
     = fst (decode_batch sample_library [ErrorRlpDecoding RpcUnavailable] sample_row)"
  using decode_batch_deterministic [where lib = sample_library and fetch = "\<lambda>h. ''ok''"
     and ?log1.0 = "[]" and r = sample_row and i = 9 and t = 99 and p = 1
     and ?log2.0 = "[ErrorRlpDecoding RpcUnavailable]"]
  by simp

text \<open>
  C9. Every batch that \<open>decode_batch\<close> returns has an empty \<open>blobs\<close> list: the fetch
  helper returns empty bytes for every versioned hash and empty content is skipped. No
  blob is decoded: the result does not depend on the RLP and hex functions at all.
\<close>

theorem decode_batch_blobs_empty:
  "(fst (decode_batch lib log r) = Inr d \<longrightarrow> blobs d = [])
   \<and> decode_batch lib log r = decode_batch lib' log r"
  by (auto simp add: decode_batch_placeholder split: if_splits)

theorem decode_batch_blobs_empty_witness:
  "fst (decode_batch sample_library [] sample_row)
     = Inr \<lparr>batch_block_number = 100, batch_transaction_hash = ''aa'', blobs = []\<rparr>
   \<and> blobs \<lparr>batch_block_number = 100, batch_transaction_hash = ''aa'', blobs = []\<rparr> = []"
  using decode_batch_blobs_empty [of sample_library "[]" sample_row
     "\<lparr>batch_block_number = 100, batch_transaction_hash = ''aa'', blobs = []\<rparr>" sample_library]
  by (simp add: decode_batch_placeholder blob_data_of_def sample_row_def sample_tx_def)

text \<open>
  C10. \<open>extract_l2_transactions\<close> returns the empty list for every decoded batch: its
  loop over the blobs adds nothing.
\<close>

theorem extract_l2_transactions_empty: "extract_l2_transactions decoded_batch = []"
  by (simp add: extract_l2_transactions_def extract_loop_keeps)

theorem extract_l2_transactions_empty_witness:
  "extract_l2_transactions
     \<lparr>batch_block_number = 100, batch_transaction_hash = ''aa'',
      blobs = [\<lparr>blob_raw_data = ''0x00'', decoded_data = [''0x00''], blob_size = 1\<rparr>]\<rparr> = []"
  using extract_l2_transactions_empty
    [of "\<lparr>batch_block_number = 100, batch_transaction_hash = ''aa'',
          blobs = [\<lparr>blob_raw_data = ''0x00'', decoded_data = [''0x00''], blob_size = 1\<rparr>]\<rparr>"]
  by simp

lemma decode_blobs_Inr:
  "fst (decode_blobs lib fetch hs log acc) = Inr ds \<Longrightarrow>
   map Inr ds = map Inr acc
     @ map (\<lambda>c. fst (decode_blob lib [] c)) (filter (\<lambda>c. c \<noteq> []) (map fetch hs))"
proof (induction hs arbitrary: log acc)
  case Nil
  then show ?case by simp
next
  case (Cons h hs)
  show ?case
  proof (cases "fetch h = []")
    case True
    with Cons show ?thesis by simp
  next
    case False
    obtain r1 l1 where d1: "decode_blob lib log (fetch h) = (r1, l1)"
      by (cases "decode_blob lib log (fetch h)")
    have r1: "fst (decode_blob lib [] (fetch h)) = r1"
      using decode_blob_log_free [of lib "[]" "fetch h" log] d1 by simp
    show ?thesis
    proof (cases r1)
      case (Inl e)
      with d1 False Cons.prems show ?thesis by simp
    next
      case (Inr b)
      with d1 False Cons.prems
      have "fst (decode_blobs lib fetch hs l1 (acc @ [b])) = Inr ds" by simp
      from Cons.IH [OF this] r1 Inr False show ?thesis by simp
    qed
  qed
qed

lemma decode_batch_with_Inr:
  assumes "fst (decode_batch_with lib fetch log r) = Inr d"
  shows "batch_block_number d = block_number r \<and> batch_transaction_hash d = transaction_hash r
    \<and> map Inr (blobs d)
        = map (\<lambda>c. fst (decode_blob lib [] c)) (filter (\<lambda>c. c \<noteq> []) (map fetch (blob_data_of r)))"
proof -
  obtain res l where db: "decode_blobs lib fetch (blob_data_of r) log [] = (res, l)"
    by (cases "decode_blobs lib fetch (blob_data_of r) log []")
  from assms db obtain ds where res: "res = Inr ds"
    and d: "d = \<lparr>batch_block_number = block_number r,
                 batch_transaction_hash = transaction_hash r, blobs = ds\<rparr>"
    by (cases res) (auto simp add: decode_batch_with_def Let_def split: if_splits)
  from db res have "fst (decode_blobs lib fetch (blob_data_of r) log []) = Inr ds" by simp
  from decode_blobs_Inr [OF this] d show ?thesis by simp
qed

text \<open>
  C4, as the code has it. \<open>decode_batch\<close> raises \<open>ValueError\<close> when the record carries no
  versioned hashes. Over any fetch function: when the content fetched for one of the hashes
  is not empty and \<open>rlp.decode\<close> rejects it, the call raises and returns no batch; and a
  batch that is returned carries the block number and the transaction hash of the record
  and the decoded form of every non-empty content, in the order of the hashes. A hash
  whose content is empty is skipped and is no error: with the placeholder fetch, a record
  that has versioned hashes decodes to a batch with no blobs.
\<close>

theorem decode_batch_error_or_complete:
  "(blob_data_of r = [] \<longrightarrow>
      fst (decode_batch_with lib fetch log r) = Inl (ValueError ''No blob data found in transaction''))
   \<and> (\<forall>h \<in> set (blob_data_of r). \<forall>e. fetch h \<noteq> [] \<and> rlp_decode lib (fetch h) = Inl e \<longrightarrow>
        (\<exists>e'. fst (decode_batch_with lib fetch log r) = Inl e'))
   \<and> (\<forall>d. fst (decode_batch_with lib fetch log r) = Inr d \<longrightarrow>
        batch_block_number d = block_number r \<and> batch_transaction_hash d = transaction_hash r
        \<and> map Inr (blobs d)
            = map (\<lambda>c. fst (decode_blob lib [] c))
                (filter (\<lambda>c. c \<noteq> []) (map fetch (blob_data_of r))))
   \<and> (blob_data_of r \<noteq> [] \<longrightarrow>
        fst (decode_batch lib log r)
          = Inr \<lparr>batch_block_number = block_number r,
                 batch_transaction_hash = transaction_hash r, blobs = []\<rparr>)"
proof (intro conjI allI ballI impI)
  assume "blob_data_of r = []"
  then show "fst (decode_batch_with lib fetch log r)
      = Inl (ValueError ''No blob data found in transaction'')"
    by (simp add: decode_batch_with_def)
next
  fix h e
  assume h: "h \<in> set (blob_data_of r)" and bad: "fetch h \<noteq> [] \<and> rlp_decode lib (fetch h) = Inl e"
  show "\<exists>e'. fst (decode_batch_with lib fetch log r) = Inl e'"
  proof (cases "fst (decode_batch_with lib fetch log r)")
    case (Inl e')
    then show ?thesis by simp
  next
    case (Inr d)
    from decode_batch_with_Inr [OF Inr]
    have m: "map Inr (blobs d)
        = map (\<lambda>c. fst (decode_blob lib [] c)) (filter (\<lambda>c. c \<noteq> []) (map fetch (blob_data_of r)))"
      by simp
    from h bad have "fst (decode_blob lib [] (fetch h))
        \<in> set (map (\<lambda>c. fst (decode_blob lib [] c)) (filter (\<lambda>c. c \<noteq> []) (map fetch (blob_data_of r))))"
      by auto
    with m have "fst (decode_blob lib [] (fetch h)) \<in> set (map Inr (blobs d))" by simp
    moreover from bad have "fst (decode_blob lib [] (fetch h)) = Inl e"
      by (simp add: decode_blob_def decode_rlp_def)
    ultimately show ?thesis by auto
  qed
next
  fix d
  assume "fst (decode_batch_with lib fetch log r) = Inr d"
  from decode_batch_with_Inr [OF this]
  show "batch_block_number d = block_number r" 
    and "batch_transaction_hash d = transaction_hash r"
    and "map Inr (blobs d)
            = map (\<lambda>c. fst (decode_blob lib [] c))
                (filter (\<lambda>c. c \<noteq> []) (map fetch (blob_data_of r)))"
    by simp_all
next
  assume "blob_data_of r \<noteq> []"
  then show "fst (decode_batch lib log r)
          = Inr \<lparr>batch_block_number = block_number r,
                 batch_transaction_hash = transaction_hash r, blobs = []\<rparr>"
    by (simp add: decode_batch_placeholder)
qed

theorem decode_batch_error_or_complete_witness:
  "blob_data_of empty_blob_row = []
   \<and> fst (decode_batch_with sample_library sample_fetch [] empty_blob_row)
       = Inl (ValueError ''No blob data found in transaction'')
   \<and> ''0x02'' \<in> set (blob_data_of sample_row) \<and> bad_fetch ''0x02'' \<noteq> []
   \<and> rlp_decode sample_library (bad_fetch ''0x02'') = Inl (DecodingError ''malformed'')
   \<and> (\<exists>e'. fst (decode_batch_with sample_library bad_fetch [] sample_row) = Inl e')
   \<and> fst (decode_batch_with sample_library sample_fetch [] sample_row)
       = Inr \<lparr>batch_block_number = 100, batch_transaction_hash = ''aa'',
              blobs = [\<lparr>blob_raw_data = ''0xok'', decoded_data = [''0xa''], blob_size = 2\<rparr>]\<rparr>
   \<and> map Inr [\<lparr>blob_raw_data = ''0xok'', decoded_data = [''0xa''], blob_size = 2\<rparr>]
       = map (\<lambda>c. fst (decode_blob sample_library [] c))
           (filter (\<lambda>c. c \<noteq> []) (map sample_fetch (blob_data_of sample_row)))
   \<and> blob_data_of sample_row \<noteq> []
   \<and> fst (decode_batch sample_library [] sample_row)
       = Inr \<lparr>batch_block_number = 100, batch_transaction_hash = ''aa'', blobs = []\<rparr>"
proof -
  have hs: "blob_data_of sample_row = [''0x01'', ''0x02'']"
    and he: "blob_data_of empty_blob_row = []"
    by (simp_all add: blob_data_of_def sample_row_def sample_tx_def empty_blob_row_def)
  have f: "block_number sample_row = 100" "transaction_hash sample_row = ''aa''"
    by (simp_all add: sample_row_def)
  have ok: "fst (decode_blob sample_library [] ''ok'')
      = Inr \<lparr>blob_raw_data = ''0xok'', decoded_data = [''0xa''], blob_size = 2\<rparr>"
    by (simp add: decode_blob_def decode_rlp_def to_hex_decoded_def sample_library_def)
  have good: "fst (decode_batch_with sample_library sample_fetch [] sample_row)
       = Inr \<lparr>batch_block_number = 100, batch_transaction_hash = ''aa'',
              blobs = [\<lparr>blob_raw_data = ''0xok'', decoded_data = [''0xa''], blob_size = 2\<rparr>]\<rparr>"
    by (simp add: decode_batch_with_def hs f sample_fetch_def decode_blob_def decode_rlp_def
        to_hex_decoded_def sample_library_def)
  have bad: "rlp_decode sample_library (bad_fetch ''0x02'') = Inl (DecodingError ''malformed'')"
    and nonempty: "bad_fetch ''0x02'' \<noteq> []"
    by (simp_all add: bad_fetch_def sample_library_def)
  from decode_batch_error_or_complete
    [where r = empty_blob_row and lib = sample_library and fetch = sample_fetch and log = "[]"] he
  have 1: "fst (decode_batch_with sample_library sample_fetch [] empty_blob_row)
       = Inl (ValueError ''No blob data found in transaction'')"
    by simp
  from decode_batch_error_or_complete
    [where r = sample_row and lib = sample_library and fetch = bad_fetch and log = "[]"]
    hs bad nonempty
  have 2: "\<exists>e'. fst (decode_batch_with sample_library bad_fetch [] sample_row) = Inl e'"
    by auto
  from decode_batch_error_or_complete
    [where r = sample_row and lib = sample_library and fetch = sample_fetch and log = "[]"] hs good
  have 3: "map Inr [\<lparr>blob_raw_data = ''0xok'', decoded_data = [''0xa''], blob_size = 2\<rparr>]
       = map (\<lambda>c. fst (decode_blob sample_library [] c))
           (filter (\<lambda>c. c \<noteq> []) (map sample_fetch (blob_data_of sample_row)))"
    and 4: "fst (decode_batch sample_library [] sample_row)
       = Inr \<lparr>batch_block_number = 100, batch_transaction_hash = ''aa'', blobs = []\<rparr>"
    by (simp_all add: f)
  from he hs 1 2 3 4 good bad nonempty show ?thesis
    by simp
qed

text \<open>
  The claim as written fails on a record that has versioned hashes: no blob bytes are
  present for it (the fetch helper returns none for either hash) and \<open>decode_batch\<close>
  does not fail.
\<close>

theorem decode_batch_no_bytes_counterexample:
  "blob_data_of sample_row = [''0x01'', ''0x02'']
   \<and> fetch_blob_content ''0x01'' = [] \<and> fetch_blob_content ''0x02'' = []
   \<and> fst (decode_batch sample_library [] sample_row)
       = Inr \<lparr>batch_block_number = 100, batch_transaction_hash = ''aa'', blobs = []\<rparr>"
  by (simp add: decode_batch_placeholder blob_data_of_def fetch_blob_content_def
      sample_row_def sample_tx_def)

section \<open>The client: calls and the scan of a block range\<close>


lemma blob_txs_loop_filter:
  "blob_txs_loop txs acc = acc @ filter (\<lambda>tx. tx_type tx = Some 3) txs"
  by (induction txs arbitrary: acc) simp_all

lemma append_matching_filter:
  "append_matching addr n txs acc = acc @ map (make_batch n) (filter (to_matches addr) txs)"
  by (induction txs arbitrary: acc) simp_all

lemma scan_one_block:
  "(case get_blob_transactions env c n of
      (Inl e, c') \<Rightarrow> acc
    | (Inr blob_txs, c') \<Rightarrow> append_matching addr n blob_txs acc)
   = acc @ batches_of_answer addr n (eth_get_block env (rpc_calls c) n)"
  by (simp add: get_blob_transactions_def get_block_def batches_of_answer_def
      blob_txs_loop_filter append_matching_filter split: sum.splits)

lemma scan_blocks_batches:
  "fst (scan_blocks env addr ns c acc)
     = acc @ concat (map (\<lambda>(k, n). batches_of_answer addr n (eth_get_block env k n))
                      (enumerate (rpc_calls c) ns))"
proof (induction ns arbitrary: c acc)
  case Nil
  show ?case by simp
next
  case (Cons n ns)
  obtain res c' where g: "get_blob_transactions env c n = (res, c')"
    by (cases "get_blob_transactions env c n")
  then have c': "rpc_calls c' = Suc (rpc_calls c)"
    by (auto simp add: get_blob_transactions_def get_block_def call_made_def split: sum.splits)
  from scan_one_block [where env = env and c = c and n = n and acc = acc and addr = addr] g
  have one: "(case res of Inl e \<Rightarrow> acc | Inr blob_txs \<Rightarrow> append_matching addr n blob_txs acc)
      = acc @ batches_of_answer addr n (eth_get_block env (rpc_calls c) n)"
    by simp
  show ?case
  proof (cases res)
    case (Inl e)
    with g one Cons.IH [of "c'\<lparr>client_log := client_log c' @ [ErrorProcessingBlock n e]\<rparr>" acc] c'
    show ?thesis by simp
  next
    case (Inr blob_txs)
    with g one Cons.IH [of c' "append_matching addr n blob_txs acc"] c'
    show ?thesis by simp
  qed
qed

lemma process_batches_metrics:
  "metrics_data (process_batches decode st bs)
     = metrics_data st @ concat (map (decoded_of decode) bs)"
  by (induction bs arbitrary: st) (simp_all add: decoded_of_def split: sum.splits)

lemma process_batches_log:
  "main_log (process_batches decode st bs)
     = main_log st @ concat (map (failure_of decode) bs)"
  by (induction bs arbitrary: st) (simp_all add: failure_of_def split: sum.splits)

section \<open>The fetcher: windows, the table and the scan pointer\<close>

lemma get_world_chain_batches_Some:
  "get_world_chain_batches env addr c s (Some e)
     = (Inr (fst (scan_blocks env addr [s..e] c [])), snd (scan_blocks env addr [s..e] c []))"
  by (simp add: get_world_chain_batches_def split: prod.splits)

lemma fetch_window_rows:
  "rows (snd (fetch_window env addr e cur f))
     = store_batches (rows f)
         (utcnow env (rpc_calls (snd (scan_blocks env addr [cur..min (cur + BATCH_SIZE - 1) e] (l1 f) []))))
         (fst (scan_blocks env addr [cur..min (cur + BATCH_SIZE - 1) e] (l1 f) []))"
  by (simp add: fetch_window_def get_world_chain_batches_Some store_batches_def log_fetcher_def
      Let_def split: sum.splits)

lemma fetch_window_pointer:
  "fst (fetch_window env addr e cur f)
     = (case commit (rows f)
         (utcnow env (rpc_calls (snd (scan_blocks env addr [cur..min (cur + BATCH_SIZE - 1) e] (l1 f) []))))
         (fst (scan_blocks env addr [cur..min (cur + BATCH_SIZE - 1) e] (l1 f) [])) of
          Inl err \<Rightarrow> cur + BATCH_SIZE
        | Inr table' \<Rightarrow> min (cur + BATCH_SIZE - 1) e + 1)"
  by (simp add: fetch_window_def get_world_chain_batches_Some log_fetcher_def
      Let_def split: sum.splits)

lemma fetch_window_next:
  "fst (fetch_window env addr e cur f) = cur + BATCH_SIZE
   \<or> (fst (fetch_window env addr e cur f) = e + 1 \<and> e + 1 < cur + BATCH_SIZE)"
  by (auto simp add: fetch_window_pointer min_def split: sum.splits)

lemma fetch_loop_step:
  "cur \<le> e \<Longrightarrow>
   fetch_loop env addr e cur f
     = fetch_loop env addr e (fst (fetch_window env addr e cur f)) (snd (fetch_window env addr e cur f))"
  by (subst fetch_loop.simps) (simp add: split_beta)

lemma fetch_loop_stop: "\<not> cur \<le> e \<Longrightarrow> fetch_loop env addr e cur f = (cur, f)"
  by (subst fetch_loop.simps) simp

lemma hashes_new_rows:
  "map transaction_hash (new_rows i now bs) = map transaction_hash bs"
  by (induction bs arbitrary: i) simp_all

lemma commit_Inr:
  "commit table now bs = Inr t \<Longrightarrow> t = table @ new_rows (int (length table) + 1) now bs"
  by (simp add: commit_def split: if_splits)

lemma commit_error: "commit table now bs = Inl e \<Longrightarrow> e = IntegrityError"
  by (simp add: commit_def split: if_splits)

lemma commit_duplicate:
  "b \<in> set bs \<Longrightarrow> transaction_hash b \<in> set (map transaction_hash table) \<Longrightarrow>
   commit table now bs = Inl IntegrityError"
  by (auto simp add: commit_def list_all_iff)

lemma store_batches_prefix: "\<exists>new. store_batches table now bs = table @ new"
  by (cases "commit table now bs") (auto simp add: store_batches_def dest: commit_Inr)

lemma hashes_disjoint:
  "list_all (\<lambda>b. transaction_hash b \<notin> set (map transaction_hash table)) bs \<Longrightarrow>
   set (map transaction_hash table) \<inter> set (map transaction_hash bs) = {}"
  unfolding list_all_iff by (simp add: disjoint_iff) blast

lemma hashes_still_stored:
  "set (map transaction_hash t) \<subseteq> set (map transaction_hash T) \<Longrightarrow>
   \<not> list_all (\<lambda>b. transaction_hash b \<notin> set (map transaction_hash t)) bs \<Longrightarrow>
   \<not> list_all (\<lambda>b. transaction_hash b \<notin> set (map transaction_hash T)) bs"
  unfolding list_all_iff by blast

lemma store_batches_distinct:
  assumes "distinct (map transaction_hash table)"
  shows "distinct (map transaction_hash (store_batches table now bs))"
proof (cases "commit table now bs")
  case (Inl e)
  with assms show ?thesis by (simp add: store_batches_def)
next
  case (Inr t)
  then have ok: "distinct (map transaction_hash bs)"
    "list_all (\<lambda>b. transaction_hash b \<notin> set (map transaction_hash table)) bs"
    by (simp_all add: commit_def split: if_splits)
  from Inr have t: "t = table @ new_rows (int (length table) + 1) now bs" by (rule commit_Inr)
  from assms ok(1) hashes_disjoint [OF ok(2)]
  have "distinct (map transaction_hash table @ map transaction_hash bs)"
    by (simp only: distinct_append simp_thms)
  with Inr t show ?thesis
    by (simp add: store_batches_def hashes_new_rows)
qed

lemma store_batches_blocked:
  assumes "set (map transaction_hash (store_batches t now bs)) \<subseteq> set (map transaction_hash T)"
  shows "store_batches T now' bs = T"
proof (cases "bs = []")
  case True
  then show ?thesis by (simp add: store_batches_def commit_def)
next
  case False
  then obtain b where b: "b \<in> set bs" by (cases bs) auto
  show ?thesis
  proof (cases "commit t now bs")
    case (Inr t')
    then have "t' = t @ new_rows (int (length t) + 1) now bs" by (rule commit_Inr)
    with Inr have "store_batches t now bs = t @ new_rows (int (length t) + 1) now bs"
      by (simp add: store_batches_def)
    then have "set (map transaction_hash (store_batches t now bs))
        = set (map transaction_hash t) \<union> set (map transaction_hash bs)"
      by (simp add: hashes_new_rows)
    with assms b have "transaction_hash b \<in> set (map transaction_hash T)"
      by auto
    with b have "commit T now' bs = Inl IntegrityError" by (rule commit_duplicate)
    then show ?thesis by (simp add: store_batches_def)
  next
    case (Inl e)
    with assms have sub: "set (map transaction_hash t) \<subseteq> set (map transaction_hash T)"
      by (simp add: store_batches_def)
    from Inl have "\<not> distinct (map transaction_hash bs)
        \<or> \<not> list_all (\<lambda>b. transaction_hash b \<notin> set (map transaction_hash t)) bs"
      by (simp add: commit_def split: if_splits)
    with hashes_still_stored [OF sub] have "\<not> distinct (map transaction_hash bs)
        \<or> \<not> list_all (\<lambda>b. transaction_hash b \<notin> set (map transaction_hash T)) bs"
      by blast
    then have "commit T now' bs = Inl IntegrityError" by (auto simp add: commit_def)
    then show ?thesis by (simp add: store_batches_def)
  qed
qed

lemma fetch_loop_window_induct:
  assumes step: "\<And>cur f. (cur \<le> e \<Longrightarrow>
      P (fst (fetch_window env addr e cur f)) (snd (fetch_window env addr e cur f))) \<Longrightarrow> P cur f"
  shows "P cur f"
proof -
  have "env' = env \<longrightarrow> addr' = addr \<longrightarrow> e' = e \<longrightarrow> P cur f" for env' addr' e'
  proof (induction env' addr' e' cur f rule: fetch_loop.induct)
    case (1 env' addr' e' cur f)
    show ?case
    proof (intro impI)
      assume eq: "env' = env" "addr' = addr" "e' = e"
      show "P cur f"
      proof (rule step)
        assume "cur \<le> e"
        with "1.IH" [of "fst (fetch_window env addr e cur f)"
          "snd (fetch_window env addr e cur f)"] eq
        show "P (fst (fetch_window env addr e cur f)) (snd (fetch_window env addr e cur f))"
          by simp
      qed
    qed
  qed
  then show ?thesis by simp
qed

lemma fetch_loop_prefix: "\<exists>new. rows (snd (fetch_loop env addr e cur f)) = rows f @ new"
proof (induction cur f rule: fetch_loop_window_induct [where env = env and addr = addr and e = e])
  case (1 cur f)
  show ?case
  proof (cases "cur \<le> e")
    case False
    then show ?thesis by (simp add: fetch_loop_stop)
  next
    case True
    let ?w = "fetch_window env addr e cur f"
    from 1 [OF True]
    obtain new where n: "rows (snd (fetch_loop env addr e (fst ?w) (snd ?w))) = rows (snd ?w) @ new"
      by auto
    from store_batches_prefix obtain new' where "rows (snd ?w) = rows f @ new'"
      unfolding fetch_window_rows by blast
    with n True show ?thesis by (simp add: fetch_loop_step)
  qed
qed

lemma fetch_loop_distinct:
  "distinct (map transaction_hash (rows f)) \<Longrightarrow>
   distinct (map transaction_hash (rows (snd (fetch_loop env addr e cur f))))"
proof (induction cur f rule: fetch_loop_window_induct [where env = env and addr = addr and e = e])
  case (1 cur f)
  show ?case
  proof (cases "cur \<le> e")
    case False
    with "1.prems" show ?thesis by (simp add: fetch_loop_stop)
  next
    case True
    let ?w = "fetch_window env addr e cur f"
    from "1.prems" have "distinct (map transaction_hash (rows (snd ?w)))"
      by (simp add: fetch_window_rows store_batches_distinct)
    from "1.IH" [OF True this] True show ?thesis
      by (simp add: fetch_loop_step)
  qed
qed

lemma fetch_loop_pointer: "cur \<le> e \<Longrightarrow> e < fst (fetch_loop env addr e cur f)"
proof (induction cur f rule: fetch_loop_window_induct [where env = env and addr = addr and e = e])
  case (1 cur f)
  let ?w = "fetch_window env addr e cur f"
  show ?case
  proof (cases "fst ?w \<le> e")
    case True
    from "1.IH" [OF "1.prems" True] "1.prems" show ?thesis
      by (simp add: fetch_loop_step)
  next
    case False
    with "1.prems" show ?thesis
      by (simp add: fetch_loop_step fetch_loop_stop)
  qed
qed

lemma map_enumerate_snd: "map (\<lambda>(k, n). g n) (enumerate k0 ns) = map g ns"
  by (induction ns arbitrary: k0) simp_all

lemma scan_blocks_steady:
  "fst (scan_blocks (steady_node head chain clock) addr ns c acc)
     = acc @ concat (map (\<lambda>n. batches_of_answer addr n (chain n)) ns)"
  by (simp add: scan_blocks_batches steady_node_def map_enumerate_snd)

lemma fetch_window_rows_steady:
  "\<exists>now. rows (snd (fetch_window (steady_node head chain clock) addr e cur f))
     = store_batches (rows f) now (window_batches addr chain e cur)"
  by (simp add: fetch_window_rows scan_blocks_steady window_batches_def) blast

lemma fetch_loop_unchanged:
  assumes "\<forall>k::nat. cur + int k * BATCH_SIZE \<le> e \<longrightarrow>
      (\<forall>now. store_batches (rows f) now (window_batches addr chain e (cur + int k * BATCH_SIZE))
         = rows f)"
  shows "rows (snd (fetch_loop (steady_node head chain clock) addr e cur f)) = rows f"
  using assms
proof (induction cur f rule: fetch_loop_window_induct
    [where env = "steady_node head chain clock" and addr = addr and e = e])
  case (1 cur f)
  let ?env = "steady_node head chain clock"
  let ?w = "fetch_window ?env addr e cur f"
  show ?case
  proof (cases "cur \<le> e")
    case False
    then show ?thesis by (simp add: fetch_loop_stop)
  next
    case True
    from "1.prems" [rule_format, of 0] True
    have here: "\<forall>now. store_batches (rows f) now (window_batches addr chain e cur) = rows f"
      by simp
    with fetch_window_rows_steady [of head chain clock addr e cur f]
    have same: "rows (snd ?w) = rows f" by auto
    have blocked: "\<forall>k::nat. fst ?w + int k * BATCH_SIZE \<le> e \<longrightarrow>
      (\<forall>now. store_batches (rows (snd ?w)) now
          (window_batches addr chain e (fst ?w + int k * BATCH_SIZE)) = rows (snd ?w))"
    proof (intro allI impI)
      fix k :: nat and now
      assume le: "fst ?w + int k * BATCH_SIZE \<le> e"
      have "0 \<le> int k * BATCH_SIZE" by (simp add: BATCH_SIZE_def)
      with le fetch_window_next [of ?env addr e cur f]
      have nxt: "fst ?w = cur + BATCH_SIZE" by auto
      with le have "cur + int (Suc k) * BATCH_SIZE \<le> e" by (simp add: algebra_simps)
      from "1.prems" [rule_format, OF this, of now] nxt same
      show "store_batches (rows (snd ?w)) now
          (window_batches addr chain e (fst ?w + int k * BATCH_SIZE)) = rows (snd ?w)"
        by (simp add: algebra_simps)
    qed
    from "1.IH" [OF True blocked] same True show ?thesis
      by (simp add: fetch_loop_step)
  qed
qed

lemma fetch_loop_blocks:
  "\<forall>k::nat. cur + int k * BATCH_SIZE \<le> e \<longrightarrow>
      (\<forall>now. store_batches (rows (snd (fetch_loop (steady_node head chain clock) addr e cur f))) now
           (window_batches addr chain e (cur + int k * BATCH_SIZE))
         = rows (snd (fetch_loop (steady_node head chain clock) addr e cur f)))"
proof (induction cur f rule: fetch_loop_window_induct
    [where env = "steady_node head chain clock" and addr = addr and e = e])
  case (1 cur f)
  let ?env = "steady_node head chain clock"
  let ?w = "fetch_window ?env addr e cur f"
  let ?F = "snd (fetch_loop ?env addr e cur f)"
  show ?case
  proof (intro allI impI)
    fix k :: nat and now
    assume le: "cur + int k * BATCH_SIZE \<le> e"
    have nonneg: "0 \<le> int k * BATCH_SIZE" by (simp add: BATCH_SIZE_def)
    with le have True: "cur \<le> e" by simp
    then have F: "fetch_loop ?env addr e cur f = fetch_loop ?env addr e (fst ?w) (snd ?w)"
      by (rule fetch_loop_step)
    show "store_batches (rows ?F) now (window_batches addr chain e (cur + int k * BATCH_SIZE))
        = rows ?F"
    proof (cases k)
      case 0
      from fetch_window_rows_steady [of head chain clock addr e cur f]
      obtain now0 where w: "rows (snd ?w) = store_batches (rows f) now0 (window_batches addr chain e cur)"
        by blast
      from fetch_loop_prefix [of ?env addr e "fst ?w" "snd ?w"] F
      obtain new where "rows ?F = rows (snd ?w) @ new" by auto
      with w have "set (map transaction_hash
            (store_batches (rows f) now0 (window_batches addr chain e cur)))
          \<subseteq> set (map transaction_hash (rows ?F))"
        by auto
      from store_batches_blocked [OF this] 0 show ?thesis by simp
    next
      case (Suc j)
      have "cur + BATCH_SIZE \<le> e"
      proof -
        have "BATCH_SIZE \<le> int (Suc j) * BATCH_SIZE" by (simp add: BATCH_SIZE_def)
        with le Suc show ?thesis by simp
      qed
      with fetch_window_next [of ?env addr e cur f]
      have nxt: "fst ?w = cur + BATCH_SIZE" by auto
      with le Suc have "fst ?w + int j * BATCH_SIZE \<le> e" by (simp add: algebra_simps)
      from "1" [OF True, rule_format, OF this, of now] F nxt Suc show ?thesis
        by (simp add: algebra_simps)
    qed
  qed
qed

lemma fetch_loop_twice:
  "rows (snd (fetch_loop (steady_node head chain clock) addr e cur
            (g (snd (fetch_loop (steady_node head chain clock) addr e cur f)))))
     = rows (snd (fetch_loop (steady_node head chain clock) addr e cur f))"
  if "rows (g (snd (fetch_loop (steady_node head chain clock) addr e cur f)))
        = rows (snd (fetch_loop (steady_node head chain clock) addr e cur f))"
proof -
  let ?F = "snd (fetch_loop (steady_node head chain clock) addr e cur f)"
  from fetch_loop_blocks [of cur e head chain clock addr f] that
  have "\<forall>k::nat. cur + int k * BATCH_SIZE \<le> e \<longrightarrow>
      (\<forall>now. store_batches (rows (g ?F)) now (window_batches addr chain e (cur + int k * BATCH_SIZE))
         = rows (g ?F))"
    by simp
  from fetch_loop_unchanged [OF this] that show ?thesis by simp
qed

lemma fetch_batches_rows:
  "rows (snd (fetch_batches env addr f s eb))
     = (case eb of
          Some e \<Rightarrow> rows (snd (fetch_loop env addr e s f))
        | None \<Rightarrow>
            (case eth_block_number env (rpc_calls (l1 f)) of
               Inl err \<Rightarrow> rows f
             | Inr e \<Rightarrow> rows (snd (fetch_loop env addr e s (f\<lparr>l1 := call_made (l1 f)\<rparr>)))))"
  by (simp add: fetch_batches_def get_latest_block_def split: option.splits sum.splits prod.splits)

lemma fetch_batches_distinct:
  "distinct (map transaction_hash (rows f)) \<Longrightarrow>
   distinct (map transaction_hash (rows (snd (fetch_batches env addr f s eb))))"
  by (simp add: fetch_batches_rows fetch_loop_distinct split: option.splits sum.splits)

lemma fetch_batches_twice:
  "rows (snd (fetch_batches (steady_node head chain clock) addr
            (snd (fetch_batches (steady_node head chain clock) addr f s eb)) s eb))
     = rows (snd (fetch_batches (steady_node head chain clock) addr f s eb))"
proof (cases eb)
  case (Some e)
  let ?env = "steady_node head chain clock"
  have "snd (fetch_batches ?env addr f s (Some e)) = snd (fetch_loop ?env addr e s f)"
    by (simp add: fetch_batches_def split: prod.splits)
  with Some fetch_loop_twice [of "\<lambda>x. x" head chain clock addr e s f] show ?thesis
    by (simp add: fetch_batches_rows)
next
  case None
  let ?env = "steady_node head chain clock"
  show ?thesis
  proof (cases head)
    case (Inl err)
    with None show ?thesis
      by (simp add: fetch_batches_def get_latest_block_def steady_node_def)
  next
    case (Inr e)
    let ?f = "f\<lparr>l1 := call_made (l1 f)\<rparr>"
    from None Inr have once: "snd (fetch_batches ?env addr f s eb) = snd (fetch_loop ?env addr e s ?f)"
      by (simp add: fetch_batches_def get_latest_block_def steady_node_def split: prod.splits)
    have "rows (snd (fetch_loop ?env addr e s
              ((\<lambda>x. x\<lparr>l1 := call_made (l1 x)\<rparr>) (snd (fetch_loop ?env addr e s ?f)))))
        = rows (snd (fetch_loop ?env addr e s ?f))"
      by (rule fetch_loop_twice) simp
    with None Inr once show ?thesis
      by (simp add: fetch_batches_rows steady_node_def)
  qed
qed

lemma batches_of_answer_block:
  "b \<in> set (batches_of_answer addr n answer) \<Longrightarrow> block_number b = n"
  by (auto simp add: batches_of_answer_def make_batch_def split: sum.splits)

lemma raw_data_new_rows: "map raw_data (new_rows i now bs) = map raw_data bs"
  by (induction bs arbitrary: i) simp_all

lemma new_rows_of_batch:
  "r \<in> set (new_rows i now bs) \<Longrightarrow>
   \<exists>b \<in> set bs. block_number r = block_number b \<and> transaction_hash r = transaction_hash b
      \<and> raw_data r = raw_data b"
  by (induction bs arbitrary: i) auto

lemmas fixture_defs = row_bb_def row_aa_def unordered_fetcher_def sample_address_def tx_bb_def tx_other_def tx_legacy_def tx_ee_def
  sample_chain_def sample_node_def retry_node_def new_client_def new_fetcher_def
  stocked_fetcher_def sample_tx_def sample_row_def steady_node_def

lemmas run_defs = fetch_batches_def fetch_loop_step fetch_loop_stop fetch_window_def
  get_world_chain_batches_def get_blob_transactions_def get_block_def get_latest_block_def
  call_made_def commit_def log_fetcher_def to_matches_def lower_def lower_char_def
  make_batch_def BATCH_SIZE_def Let_def

text \<open>
  C1, as the code has it. The scan pointer moves past every window, whether the window was
  stored or not. When the commit of a window succeeds, the batches the scan returned are
  appended to the table and the pointer moves to the block after the window. When the
  commit raises, the session is rolled back, the table is what it was before the window,
  and the pointer still moves on by \<open>BATCH_SIZE\<close>, past the window. So every run ends with
  the pointer beyond \<open>end_block\<close>.
\<close>

theorem fetch_window_always_advances:
  assumes "current_block \<le> end_block"
  shows "min (current_block + BATCH_SIZE - 1) end_block
           < fst (fetch_window env addr end_block current_block f)
   \<and> (\<exists>batches c'.
         get_world_chain_batches env addr (l1 f) current_block
             (Some (min (current_block + BATCH_SIZE - 1) end_block)) = (Inr batches, c')
         \<and> (case commit (rows f) (utcnow env (rpc_calls c')) batches of
               Inl err \<Rightarrow>
                 fst (fetch_window env addr end_block current_block f) = current_block + BATCH_SIZE
                 \<and> rows (snd (fetch_window env addr end_block current_block f)) = rows f
             | Inr table' \<Rightarrow>
                 fst (fetch_window env addr end_block current_block f)
                   = min (current_block + BATCH_SIZE - 1) end_block + 1
                 \<and> rows (snd (fetch_window env addr end_block current_block f)) = table'
                 \<and> table' = rows f @ new_rows (int (length (rows f)) + 1)
                                      (utcnow env (rpc_calls c')) batches))
   \<and> end_block < fst (fetch_loop env addr end_block current_block f)"
proof (intro conjI)
  show "min (current_block + BATCH_SIZE - 1) end_block
           < fst (fetch_window env addr end_block current_block f)"
    using assms by (auto simp add: fetch_window_pointer BATCH_SIZE_def split: sum.splits)
next
  let ?be = "min (current_block + BATCH_SIZE - 1) end_block"
  let ?sc = "scan_blocks env addr [current_block..?be] (l1 f) []"
  have g: "get_world_chain_batches env addr (l1 f) current_block (Some ?be)
      = (Inr (fst ?sc), snd ?sc)"
    by (rule get_world_chain_batches_Some)
  have "case commit (rows f) (utcnow env (rpc_calls (snd ?sc))) (fst ?sc) of
               Inl err \<Rightarrow>
                 fst (fetch_window env addr end_block current_block f) = current_block + BATCH_SIZE
                 \<and> rows (snd (fetch_window env addr end_block current_block f)) = rows f
             | Inr table' \<Rightarrow>
                 fst (fetch_window env addr end_block current_block f) = ?be + 1
                 \<and> rows (snd (fetch_window env addr end_block current_block f)) = table'
                 \<and> table' = rows f @ new_rows (int (length (rows f)) + 1)
                                      (utcnow env (rpc_calls (snd ?sc))) (fst ?sc)"
    by (auto simp add: fetch_window_pointer fetch_window_rows store_batches_def
        dest: commit_Inr split: sum.splits)
  with g show "\<exists>batches c'.
         get_world_chain_batches env addr (l1 f) current_block (Some ?be) = (Inr batches, c')
         \<and> (case commit (rows f) (utcnow env (rpc_calls c')) batches of
               Inl err \<Rightarrow>
                 fst (fetch_window env addr end_block current_block f) = current_block + BATCH_SIZE
                 \<and> rows (snd (fetch_window env addr end_block current_block f)) = rows f
             | Inr table' \<Rightarrow>
                 fst (fetch_window env addr end_block current_block f) = ?be + 1
                 \<and> rows (snd (fetch_window env addr end_block current_block f)) = table'
                 \<and> table' = rows f @ new_rows (int (length (rows f)) + 1)
                                      (utcnow env (rpc_calls c')) batches)"
    by blast
next
  show "end_block < fst (fetch_loop env addr end_block current_block f)"
    using assms by (rule fetch_loop_pointer)
qed

theorem fetch_window_always_advances_witness:
  "(100::int) \<le> 101
   \<and> min (100 + BATCH_SIZE - 1) 101
        < fst (fetch_window retry_node sample_address 101 100 stocked_fetcher)
   \<and> fst (fetch_window retry_node sample_address 101 100 stocked_fetcher) = 200
   \<and> rows (snd (fetch_window retry_node sample_address 101 100 stocked_fetcher)) = [sample_row]
   \<and> fst (fetch_window retry_node sample_address 101 100 new_fetcher) = 102
   \<and> map transaction_hash (rows (snd (fetch_window retry_node sample_address 101 100 new_fetcher)))
        = [''aa'', ''bb'']
   \<and> 101 < fst (fetch_loop retry_node sample_address 101 100 stocked_fetcher)"
proof -
  have le: "(100::int) \<le> 101" by simp
  note a = fetch_window_always_advances [OF le, of retry_node sample_address stocked_fetcher]
  have ev: "fst (fetch_window retry_node sample_address 101 100 stocked_fetcher) = 200
    \<and> rows (snd (fetch_window retry_node sample_address 101 100 stocked_fetcher)) = [sample_row]
    \<and> fst (fetch_window retry_node sample_address 101 100 new_fetcher) = 102
    \<and> map transaction_hash (rows (snd (fetch_window retry_node sample_address 101 100 new_fetcher)))
        = [''aa'', ''bb'']"
    by (simp add: run_defs fixture_defs)
  from a le ev show ?thesis by blast
qed

text \<open>
  The claim as written fails on a run over blocks 100 and 101 where the table already
  holds the first batch of block 100 and the call for block 101 fails once. The
  commit of the window raises, nothing of the window is stored, and the pointer ends at
  200: the second batch of block 100 and the batch of block 101 are passed and not stored,
  and block 101 was never scanned.
\<close>

theorem pointer_passes_failed_window_counterexample:
  "fetch_batches retry_node sample_address stocked_fetcher 100 (Some 101)
     = (Inr 200,
        \<lparr>l1 = \<lparr>rpc_calls = 2,
                client_log = [ErrorProcessingBlock 101 (TransportError ''timed out'')]\<rparr>,
         rows = [sample_row],
         fetcher_log = [InfoFetchingBatches 100 101, ErrorFetchingBatches IntegrityError]\<rparr>)
   \<and> eth_get_block retry_node 0 100 = Inr \<lparr>transactions = [sample_tx, tx_bb]\<rparr>
   \<and> eth_get_block retry_node 2 101 = Inr \<lparr>transactions = [tx_ee]\<rparr>
   \<and> to_matches sample_address tx_bb \<and> tx_type tx_bb = Some 3
   \<and> to_matches sample_address tx_ee \<and> tx_type tx_ee = Some 3
   \<and> tx_hash tx_bb \<notin> set (map transaction_hash [sample_row])
   \<and> tx_hash tx_ee \<notin> set (map transaction_hash [sample_row])"
  by (simp add: run_defs fixture_defs)

text \<open>
  C2. Storing is idempotent on the transaction hash. A commit that holds a batch whose
  hash is already in the table raises, and the window it belongs to leaves the table as it
  was; the hashes in the table stay distinct through any run of \<open>fetch_batches\<close>, so no
  duplicate row is created; and on a node whose answers do not change, fetching the same
  block range a second time leaves the table as the first fetch left it.
\<close>

theorem store_idempotent_on_hash:
  "(b \<in> set batches \<and> transaction_hash b \<in> set (map transaction_hash table) \<longrightarrow>
      commit table now batches = Inl IntegrityError)
   \<and> (b \<in> set (fst (scan_blocks env addr
                       [current_block..min (current_block + BATCH_SIZE - 1) e] (l1 f) []))
        \<and> transaction_hash b \<in> set (map transaction_hash (rows f)) \<longrightarrow>
      rows (snd (fetch_window env addr e current_block f)) = rows f)
   \<and> (distinct (map transaction_hash (rows f)) \<longrightarrow>
        distinct (map transaction_hash
          (rows (snd (fetch_batches env addr f start_block end_block)))))
   \<and> rows (snd (fetch_batches (steady_node head chain clock) addr
              (snd (fetch_batches (steady_node head chain clock) addr f start_block end_block))
              start_block end_block))
     = rows (snd (fetch_batches (steady_node head chain clock) addr f start_block end_block))"
proof (intro conjI impI)
  assume "b \<in> set batches \<and> transaction_hash b \<in> set (map transaction_hash table)"
  then show "commit table now batches = Inl IntegrityError"
    by (blast intro: commit_duplicate)
next
  assume "b \<in> set (fst (scan_blocks env addr
                       [current_block..min (current_block + BATCH_SIZE - 1) e] (l1 f) []))
        \<and> transaction_hash b \<in> set (map transaction_hash (rows f))"
  then have "commit (rows f)
      (utcnow env (rpc_calls (snd (scan_blocks env addr
          [current_block..min (current_block + BATCH_SIZE - 1) e] (l1 f) []))))
      (fst (scan_blocks env addr [current_block..min (current_block + BATCH_SIZE - 1) e] (l1 f) []))
        = Inl IntegrityError"
    by (blast intro: commit_duplicate)
  then show "rows (snd (fetch_window env addr e current_block f)) = rows f"
    by (simp add: fetch_window_rows store_batches_def)
next
  assume "distinct (map transaction_hash (rows f))"
  then show "distinct (map transaction_hash
          (rows (snd (fetch_batches env addr f start_block end_block))))"
    by (rule fetch_batches_distinct)
next
  show "rows (snd (fetch_batches (steady_node head chain clock) addr
              (snd (fetch_batches (steady_node head chain clock) addr f start_block end_block))
              start_block end_block))
     = rows (snd (fetch_batches (steady_node head chain clock) addr f start_block end_block))"
    by (rule fetch_batches_twice)
qed

theorem store_idempotent_on_hash_witness:
  "make_batch 100 sample_tx \<in> set [make_batch 100 sample_tx, make_batch 100 tx_bb]
   \<and> transaction_hash (make_batch 100 sample_tx) \<in> set (map transaction_hash [sample_row])
   \<and> commit [sample_row] 0 [make_batch 100 sample_tx, make_batch 100 tx_bb] = Inl IntegrityError
   \<and> make_batch 100 sample_tx
        \<in> set (fst (scan_blocks retry_node sample_address
                  [100..min (100 + BATCH_SIZE - 1) 101] (l1 stocked_fetcher) []))
   \<and> transaction_hash (make_batch 100 sample_tx) \<in> set (map transaction_hash (rows stocked_fetcher))
   \<and> rows (snd (fetch_window retry_node sample_address 101 100 stocked_fetcher))
        = rows stocked_fetcher
   \<and> distinct (map transaction_hash (rows new_fetcher))
   \<and> distinct (map transaction_hash
        (rows (snd (fetch_batches sample_node sample_address new_fetcher 100 (Some 102)))))
   \<and> map transaction_hash
        (rows (snd (fetch_batches sample_node sample_address new_fetcher 100 (Some 102))))
        = [''bb'', ''aa'', ''ee'']
   \<and> rows (snd (fetch_batches sample_node sample_address
                (snd (fetch_batches sample_node sample_address new_fetcher 100 (Some 102)))
                100 (Some 102)))
        = rows (snd (fetch_batches sample_node sample_address new_fetcher 100 (Some 102)))"
proof -
  have h1: "make_batch 100 sample_tx \<in> set [make_batch 100 sample_tx, make_batch 100 tx_bb]
      \<and> transaction_hash (make_batch 100 sample_tx) \<in> set (map transaction_hash [sample_row])"
    by (simp add: make_batch_def sample_row_def sample_tx_def)
  have h2: "make_batch 100 sample_tx
        \<in> set (fst (scan_blocks retry_node sample_address
                  [100..min (100 + BATCH_SIZE - 1) 101] (l1 stocked_fetcher) []))
      \<and> transaction_hash (make_batch 100 sample_tx) \<in> set (map transaction_hash (rows stocked_fetcher))"
    by (simp add: run_defs fixture_defs)
  have h3: "distinct (map transaction_hash (rows new_fetcher))"
    by (simp add: new_fetcher_def)
  have ev: "map transaction_hash
        (rows (snd (fetch_batches sample_node sample_address new_fetcher 100 (Some 102))))
        = [''bb'', ''aa'', ''ee'']"
    by (simp add: run_defs fixture_defs)
  note a = store_idempotent_on_hash [where b = "make_batch 100 sample_tx"
      and batches = "[make_batch 100 sample_tx, make_batch 100 tx_bb]" and table = "[sample_row]"
      and now = 0 and env = retry_node and addr = sample_address and current_block = 100
      and e = 101 and f = stocked_fetcher and start_block = 100 and end_block = "Some 102"
      and head = "Inr 102" and chain = sample_chain and clock = "\<lambda>k. k"]
  note b = store_idempotent_on_hash [where b = "make_batch 100 sample_tx"
      and batches = "[make_batch 100 sample_tx, make_batch 100 tx_bb]" and table = "[sample_row]"
      and now = 0 and env = sample_node and addr = sample_address and current_block = 100
      and e = 101 and f = new_fetcher and start_block = 100 and end_block = "Some 102"
      and head = "Inr 102" and chain = sample_chain and clock = "\<lambda>k. k"]
  from a h1 h2 have c1: "commit [sample_row] 0 [make_batch 100 sample_tx, make_batch 100 tx_bb]
      = Inl IntegrityError"
    and c2: "rows (snd (fetch_window retry_node sample_address 101 100 stocked_fetcher))
        = rows stocked_fetcher"
    by blast+
  from b h3 have c3: "distinct (map transaction_hash
        (rows (snd (fetch_batches sample_node sample_address new_fetcher 100 (Some 102)))))"
    and c4: "rows (snd (fetch_batches sample_node sample_address
                (snd (fetch_batches sample_node sample_address new_fetcher 100 (Some 102)))
                100 (Some 102)))
        = rows (snd (fetch_batches sample_node sample_address new_fetcher 100 (Some 102)))"
    unfolding sample_node_def by blast+
  from h1 h2 h3 ev c1 c2 c3 c4 show ?thesis by blast
qed

section \<open>The store: the pending rows\<close>

lemma pending_after_mark:
  "filter (\<lambda>r. processed r = 0) (map (mark_row i) table)
     = filter (\<lambda>r. id r \<noteq> i) (filter (\<lambda>r. processed r = 0) table)"
  by (induction table) (simp_all add: mark_row_def)

text \<open>
  C7, as the code has it. For every store state, the pending records are the rows with
  \<open>processed = 0\<close>, in the order they have in the table; no order by block number or hash
  is applied. A row is returned if and only if it is in the table and unprocessed, the
  rows returned are a subsequence of the table, their ids ascend when the ids of the table
  do, and marking a row as processed takes that row out of the pending records and leaves
  the order of the others as it was.
\<close>

theorem pending_in_table_order:
  "(r \<in> set (get_unprocessed_batches f) \<longleftrightarrow> r \<in> set (rows f) \<and> processed r = 0)
   \<and> subseq (get_unprocessed_batches f) (rows f)
   \<and> (sorted_wrt (<) (map id (rows f)) \<longrightarrow>
        sorted_wrt (<) (map id (get_unprocessed_batches f)))
   \<and> get_unprocessed_batches (mark_as_processed f batch_id)
       = filter (\<lambda>r. id r \<noteq> batch_id) (get_unprocessed_batches f)"
proof (intro conjI impI)
  show "r \<in> set (get_unprocessed_batches f) \<longleftrightarrow> r \<in> set (rows f) \<and> processed r = 0"
    by (simp add: get_unprocessed_batches_def)
  show "subseq (get_unprocessed_batches f) (rows f)"
    by (simp add: get_unprocessed_batches_def)
  show "get_unprocessed_batches (mark_as_processed f batch_id)
       = filter (\<lambda>r. id r \<noteq> batch_id) (get_unprocessed_batches f)"
    by (simp add: get_unprocessed_batches_def mark_as_processed_def pending_after_mark)
next
  assume "sorted_wrt (<) (map id (rows f))"
  then show "sorted_wrt (<) (map id (get_unprocessed_batches f))"
    by (simp add: get_unprocessed_batches_def sorted_wrt_map sorted_wrt_filter)
qed

theorem pending_in_table_order_witness:
  "row_aa \<in> set (get_unprocessed_batches unordered_fetcher)
   \<and> row_aa \<in> set (rows unordered_fetcher) \<and> processed row_aa = 0
   \<and> subseq (get_unprocessed_batches unordered_fetcher) (rows unordered_fetcher)
   \<and> sorted_wrt (<) (map id (rows unordered_fetcher))
   \<and> sorted_wrt (<) (map id (get_unprocessed_batches unordered_fetcher))
   \<and> get_unprocessed_batches unordered_fetcher = [row_bb, row_aa]
   \<and> get_unprocessed_batches (mark_as_processed unordered_fetcher 1) = [row_aa]"
proof -
  have h: "sorted_wrt (<) (map id (rows unordered_fetcher))"
    by (simp add: fixture_defs)
  have ev: "get_unprocessed_batches unordered_fetcher = [row_bb, row_aa]"
    "filter (\<lambda>r. id r \<noteq> 1) [row_bb, row_aa] = [row_aa]"
    "row_aa \<in> set (rows unordered_fetcher)" "processed row_aa = 0"
    by (simp_all add: get_unprocessed_batches_def fixture_defs)
  note t = pending_in_table_order [where f = unordered_fetcher and r = row_aa and batch_id = 1]
  from t h ev have c: "row_aa \<in> set (get_unprocessed_batches unordered_fetcher)"
    "subseq (get_unprocessed_batches unordered_fetcher) (rows unordered_fetcher)"
    "sorted_wrt (<) (map id (get_unprocessed_batches unordered_fetcher))"
    "get_unprocessed_batches (mark_as_processed unordered_fetcher 1) = [row_aa]"
    by simp_all
  from h ev c show ?thesis by simp
qed

text \<open>
  The claim as written fails on a table that holds two unprocessed rows of block 100 which
  were inserted in the order \<open>bb\<close>, \<open>aa\<close>: they are pending in that order.
\<close>

theorem pending_not_by_hash_counterexample:
  "get_unprocessed_batches unordered_fetcher = [row_bb, row_aa]
   \<and> block_number row_bb = block_number row_aa
   \<and> \<not> transaction_hash row_bb \<le> transaction_hash row_aa
   \<and> \<not> pending_ordered (get_unprocessed_batches unordered_fetcher)"
  by (simp add: pending_ordered_def get_unprocessed_batches_def fixture_defs)

section \<open>The client: errors of web3, the filter, isolation of errors\<close>


lemma enumerate_upto_index:
  "(k, n) \<in> set (enumerate k0 [s..e]) \<longleftrightarrow> s \<le> n \<and> n \<le> e \<and> k = k0 + nat (n - s)"
proof -
  have len: "length [s..e] = nat (e - s + 1)" by simp
  show ?thesis
  proof
    assume "(k, n) \<in> set (enumerate k0 [s..e])"
    then have k: "k0 \<le> k" "k < length [s..e] + k0" and nth: "[s..e] ! (k - k0) = n"
      by (simp_all add: in_set_enumerate_eq)
    from k have "s + int (k - k0) \<le> e" by (simp add: len)
    with nth have "n = s + int (k - k0)" by (simp add: nth_upto)
    with k \<open>s + int (k - k0) \<le> e\<close> show "s \<le> n \<and> n \<le> e \<and> k = k0 + nat (n - s)"
      by simp
  next
    assume a: "s \<le> n \<and> n \<le> e \<and> k = k0 + nat (n - s)"
    then have "s + int (k - k0) \<le> e" "k - k0 < length [s..e]" "n = s + int (k - k0)"
      by (simp_all add: len)
    with a show "(k, n) \<in> set (enumerate k0 [s..e])"
      by (simp add: in_set_enumerate_eq nth_upto)
  qed
qed

lemma scanned_batch_iff:
  assumes "s \<le> n" "n \<le> e" and ans: "g (k0 + nat (n - s)) n = Inr b"
  shows "make_batch n tx
           \<in> set (concat (map (\<lambda>(k, m). batches_of_answer addr m (g k m)) (enumerate k0 [s..e])))
         \<longleftrightarrow> tx \<in> set (transactions b) \<and> tx_type tx = Some 3 \<and> to_matches addr tx"
proof
  assume "make_batch n tx
      \<in> set (concat (map (\<lambda>(k, m). batches_of_answer addr m (g k m)) (enumerate k0 [s..e])))"
  then obtain k m where km: "(k, m) \<in> set (enumerate k0 [s..e])"
    and mem: "make_batch n tx \<in> set (batches_of_answer addr m (g k m))"
    by auto
  from batches_of_answer_block [OF mem] have "m = n" by (simp add: make_batch_def)
  with km have "k = k0 + nat (n - s)" by (simp add: enumerate_upto_index)
  with mem \<open>m = n\<close> ans have "make_batch n tx \<in> set (batches_of_answer addr n (Inr b))" by simp
  then obtain t where t: "t \<in> set (transactions b)" "tx_type t = Some 3" "to_matches addr t"
    and eq: "make_batch n tx = make_batch n t"
    by (auto simp add: batches_of_answer_def)
  from eq have "t = tx" by (simp add: make_batch_def)
  with t show "tx \<in> set (transactions b) \<and> tx_type tx = Some 3 \<and> to_matches addr tx" by simp
next
  assume a: "tx \<in> set (transactions b) \<and> tx_type tx = Some 3 \<and> to_matches addr tx"
  from assms(1,2) have "(k0 + nat (n - s), n) \<in> set (enumerate k0 [s..e])"
    by (simp add: enumerate_upto_index)
  moreover from a ans
  have "make_batch n tx \<in> set (batches_of_answer addr n (g (k0 + nat (n - s)) n))"
    by (simp add: batches_of_answer_def)
  ultimately show "make_batch n tx
      \<in> set (concat (map (\<lambda>(k, m). batches_of_answer addr m (g k m)) (enumerate k0 [s..e])))"
    by force
qed

lemma scanned_batches_match:
  "b \<in> set (fst (scan_blocks env addr ns c [])) \<Longrightarrow>
   tx_type (raw_data b) = Some 3 \<and> to_matches addr (raw_data b)"
  by (auto simp add: scan_blocks_batches batches_of_answer_def make_batch_def split: sum.splits)

lemma store_batches_rows_match:
  assumes "r \<in> set (store_batches table now bs)"
    and "\<forall>b \<in> set bs. tx_type (raw_data b) = Some 3 \<and> to_matches addr (raw_data b)"
  shows "r \<in> set table \<or> (tx_type (raw_data r) = Some 3 \<and> to_matches addr (raw_data r))"
proof (cases "commit table now bs")
  case (Inl e)
  with assms(1) show ?thesis by (simp add: store_batches_def)
next
  case (Inr t)
  then have "t = table @ new_rows (int (length table) + 1) now bs" by (rule commit_Inr)
  with Inr assms(1) have "r \<in> set table \<or> r \<in> set (new_rows (int (length table) + 1) now bs)"
    by (simp add: store_batches_def)
  then show ?thesis
  proof
    assume "r \<in> set table" then show ?thesis ..
  next
    assume "r \<in> set (new_rows (int (length table) + 1) now bs)"
    from new_rows_of_batch [OF this] obtain b where "b \<in> set bs" "raw_data r = raw_data b"
      by blast
    with assms(2) show ?thesis by simp
  qed
qed

lemma fetch_loop_rows_match:
  "\<forall>r \<in> set (rows (snd (fetch_loop env addr e cur f))).
     r \<in> set (rows f) \<or> (tx_type (raw_data r) = Some 3 \<and> to_matches addr (raw_data r))"
proof (induction cur f rule: fetch_loop_window_induct [where env = env and addr = addr and e = e])
  case (1 cur f)
  show ?case
  proof (cases "cur \<le> e")
    case False
    then show ?thesis by (simp add: fetch_loop_stop)
  next
    case True
    let ?w = "fetch_window env addr e cur f"
    have w: "\<forall>r \<in> set (rows (snd ?w)).
        r \<in> set (rows f) \<or> (tx_type (raw_data r) = Some 3 \<and> to_matches addr (raw_data r))"
      unfolding fetch_window_rows
      using store_batches_rows_match scanned_batches_match by blast
    from 1 [OF True] w have "\<forall>r \<in> set (rows (snd (fetch_loop env addr e (fst ?w) (snd ?w)))).
        r \<in> set (rows f) \<or> (tx_type (raw_data r) = Some 3 \<and> to_matches addr (raw_data r))"
      by blast
    with True show ?thesis by (simp add: fetch_loop_step)
  qed
qed

lemma fetch_batches_rows_match:
  "\<forall>r \<in> set (rows (snd (fetch_batches env addr f s eb))).
     r \<in> set (rows f) \<or> (tx_type (raw_data r) = Some 3 \<and> to_matches addr (raw_data r))"
proof (cases eb)
  case (Some e)
  with fetch_loop_rows_match [of env addr e s f] show ?thesis
    by (simp add: fetch_batches_rows)
next
  case None
  show ?thesis
  proof (cases "eth_block_number env (rpc_calls (l1 f))")
    case (Inl err)
    with None show ?thesis by (simp add: fetch_batches_rows)
  next
    case (Inr e)
    with None fetch_loop_rows_match [of env addr e s "f\<lparr>l1 := call_made (l1 f)\<rparr>"]
    show ?thesis by (simp add: fetch_batches_rows)
  qed
qed

lemma to_matches_iff:
  "to_matches addr tx \<longleftrightarrow> (\<exists>a. tx_to tx = Some a \<and> a \<noteq> [] \<and> lower a = lower addr)"
  by (simp add: to_matches_def split: option.splits)




text \<open>
  C3, as the code has it. For every block of a scanned range that web3 returns, a
  transaction of the block yields a batch record in the list that
  \<open>get_world_chain_batches\<close> returns if and only if its type is 3 and its destination is a
  non-empty string that equals the configured rollup address when both are lower-cased; a
  blob transaction with another destination yields none. Every row that \<open>fetch_batches\<close>
  adds to the table carries a transaction with both properties. Whether a record that the
  scan produced is stored rests with the commit of its window.
\<close>

theorem batch_iff_blob_to_rollup:
  assumes "start_block \<le> n" and "n \<le> end_block"
    and "eth_get_block env (rpc_calls c + nat (n - start_block)) n = Inr b"
    and "tx \<in> set (transactions b)"
  shows "(\<exists>batches.
            fst (get_world_chain_batches env addr c start_block (Some end_block)) = Inr batches
          \<and> (make_batch n tx \<in> set batches
               \<longleftrightarrow> tx_type tx = Some 3
                   \<and> (\<exists>a. tx_to tx = Some a \<and> a \<noteq> [] \<and> lower a = lower addr)))
    \<and> (\<forall>r \<in> set (rows (snd (fetch_batches env addr f first_block last_block))).
          r \<in> set (rows f)
          \<or> (tx_type (raw_data r) = Some 3
              \<and> (\<exists>a. tx_to (raw_data r) = Some a \<and> a \<noteq> [] \<and> lower a = lower addr)))"
proof (intro conjI)
  have "fst (get_world_chain_batches env addr c start_block (Some end_block))
      = Inr (fst (scan_blocks env addr [start_block..end_block] c []))"
    by (simp add: get_world_chain_batches_Some)
  moreover have "make_batch n tx \<in> set (fst (scan_blocks env addr [start_block..end_block] c []))
      \<longleftrightarrow> tx_type tx = Some 3 \<and> (\<exists>a. tx_to tx = Some a \<and> a \<noteq> [] \<and> lower a = lower addr)"
    using scanned_batch_iff [OF assms(1,2), of "eth_get_block env" "rpc_calls c" b tx addr]
      assms(3,4)
    by (simp add: scan_blocks_batches to_matches_iff)
  ultimately show "\<exists>batches.
            fst (get_world_chain_batches env addr c start_block (Some end_block)) = Inr batches
          \<and> (make_batch n tx \<in> set batches
               \<longleftrightarrow> tx_type tx = Some 3
                   \<and> (\<exists>a. tx_to tx = Some a \<and> a \<noteq> [] \<and> lower a = lower addr))"
    by blast
next
  show "\<forall>r \<in> set (rows (snd (fetch_batches env addr f first_block last_block))).
          r \<in> set (rows f)
          \<or> (tx_type (raw_data r) = Some 3
              \<and> (\<exists>a. tx_to (raw_data r) = Some a \<and> a \<noteq> [] \<and> lower a = lower addr))"
    using fetch_batches_rows_match [of env addr f first_block last_block]
    by (simp add: to_matches_iff)
qed

theorem batch_iff_blob_to_rollup_witness:
  "(100::int) \<le> 102 \<and> (102::int) \<le> 102 \<and> (100::int) \<le> 100
   \<and> eth_get_block sample_node (rpc_calls new_client + nat (102 - 100)) 102
       = Inr \<lparr>transactions = [tx_ee]\<rparr>
   \<and> tx_ee \<in> set (transactions \<lparr>transactions = [tx_ee]\<rparr>)
   \<and> tx_type tx_ee = Some 3 \<and> tx_to tx_ee = Some ''0xAb'' \<and> ''0xAb'' \<noteq> []
   \<and> lower ''0xAb'' = lower sample_address
   \<and> (\<exists>batches. fst (get_world_chain_batches sample_node sample_address new_client 100 (Some 102))
                    = Inr batches
         \<and> make_batch 102 tx_ee \<in> set batches)
   \<and> eth_get_block sample_node (rpc_calls new_client + nat (100 - 100)) 100
       = Inr \<lparr>transactions = [tx_bb, sample_tx, tx_other, tx_legacy]\<rparr>
   \<and> tx_other \<in> set (transactions \<lparr>transactions = [tx_bb, sample_tx, tx_other, tx_legacy]\<rparr>)
   \<and> tx_type tx_other = Some 3 \<and> tx_to tx_other = Some ''0xCd''
   \<and> lower ''0xCd'' \<noteq> lower sample_address
   \<and> (\<exists>batches. fst (get_world_chain_batches sample_node sample_address new_client 100 (Some 102))
                    = Inr batches
         \<and> make_batch 100 tx_other \<notin> set batches)
   \<and> sample_row
        \<in> set (rows (snd (fetch_batches sample_node sample_address stocked_fetcher 100 (Some 100))))
   \<and> sample_row \<in> set (rows stocked_fetcher)
   \<and> tx_type (raw_data sample_row) = Some 3"
proof -
  let ?b = "\<lparr>transactions = [tx_bb, sample_tx, tx_other, tx_legacy]\<rparr>"
  have le: "(100::int) \<le> 102" "(102::int) \<le> 102" "(100::int) \<le> 100" by simp_all
  have h1: "eth_get_block sample_node (rpc_calls new_client + nat (102 - 100)) 102
       = Inr \<lparr>transactions = [tx_ee]\<rparr>"
    and h2: "eth_get_block sample_node (rpc_calls new_client + nat (100 - 100)) 100 = Inr ?b"
    by (simp_all add: sample_node_def steady_node_def sample_chain_def)
  have h3: "tx_ee \<in> set (transactions \<lparr>transactions = [tx_ee]\<rparr>)"
    and h4: "tx_other \<in> set (transactions ?b)"
    by simp_all
  have p: "tx_type tx_ee = Some 3" "tx_to tx_ee = Some ''0xAb''" "''0xAb'' \<noteq> []"
    "lower ''0xAb'' = lower sample_address"
    by (simp_all add: tx_ee_def sample_tx_def sample_address_def)
  have q: "tx_type tx_other = Some 3" "tx_to tx_other = Some ''0xCd''"
    "lower ''0xCd'' \<noteq> lower sample_address"
    by (simp_all add: tx_other_def sample_tx_def sample_address_def lower_def lower_char_def)
  have s: "sample_row
        \<in> set (rows (snd (fetch_batches sample_node sample_address stocked_fetcher 100 (Some 100))))"
    "sample_row \<in> set (rows stocked_fetcher)" "tx_type (raw_data sample_row) = Some 3"
    by (simp_all add: run_defs fixture_defs)
  note a = batch_iff_blob_to_rollup [OF le(1) le(2) h1 h3, where addr = sample_address
      and f = stocked_fetcher and first_block = 100 and last_block = "Some 100"]
  note b = batch_iff_blob_to_rollup [OF le(3) le(1) h2 h4, where addr = sample_address
      and f = stocked_fetcher and first_block = 100 and last_block = "Some 100"]
  from a p
  have c1: "\<exists>batches. fst (get_world_chain_batches sample_node sample_address new_client 100 (Some 102))
                    = Inr batches \<and> make_batch 102 tx_ee \<in> set batches"
    by auto
  from b q
  have c2: "\<exists>batches. fst (get_world_chain_batches sample_node sample_address new_client 100 (Some 102))
                    = Inr batches \<and> make_batch 100 tx_other \<notin> set batches"
    by auto
  from le h1 h2 h3 h4 p q s c1 c2 show ?thesis by blast
qed

text \<open>
  The claim as written fails on a scan of block 100 over a table that already holds the
  batch \<open>aa\<close> of that block: \<open>tx_bb\<close> has type 3 and is addressed to the rollup contract,
  the scan returns its batch, the commit of the window raises, and no record of \<open>tx_bb\<close>
  is stored.
\<close>

theorem matching_tx_not_stored_counterexample:
  "eth_get_block sample_node 0 100
     = Inr \<lparr>transactions = [tx_bb, sample_tx, tx_other, tx_legacy]\<rparr>
   \<and> tx_type tx_bb = Some 3 \<and> tx_to tx_bb = Some ''0xaB''
   \<and> lower ''0xaB'' = lower sample_address
   \<and> fst (get_world_chain_batches sample_node sample_address new_client 100 (Some 100))
       = Inr [make_batch 100 tx_bb, make_batch 100 sample_tx]
   \<and> fst (fetch_batches sample_node sample_address stocked_fetcher 100 (Some 100)) = Inr 200
   \<and> rows (snd (fetch_batches sample_node sample_address stocked_fetcher 100 (Some 100)))
       = [sample_row]
   \<and> raw_data sample_row \<noteq> tx_bb
   \<and> transaction_hash sample_row \<noteq> tx_hash tx_bb"
  by (simp add: run_defs fixture_defs)

text \<open>
  C8. Errors are isolated. Scanning a block range yields, for every block of the range,
  the batches of that block as the node's answer for that block alone determines them: a
  block whose call fails contributes nothing and takes nothing away from the blocks
  after it. In the decode pass every row is decoded: the metrics gathered are those of
  every row that decodes, in order, and a row that fails leaves one log entry and nothing
  else.
\<close>

theorem errors_isolated:
  "fst (get_world_chain_batches env addr c start_block (Some end_block))
     = Inr (concat (map (\<lambda>(k, n). batches_of_answer addr n (eth_get_block env k n))
                     (enumerate (rpc_calls c) [start_block..end_block])))
   \<and> metrics_data (process_batches decode st bs)
     = metrics_data st @ concat (map (decoded_of decode) bs)
   \<and> main_log (process_batches decode st bs)
     = main_log st @ concat (map (failure_of decode) bs)"
proof -
  have "fst (get_world_chain_batches env addr c start_block (Some end_block))
      = Inr (fst (scan_blocks env addr [start_block..end_block] c []))"
    by (simp add: get_world_chain_batches_def split: prod.splits)
  then show ?thesis
    by (simp add: scan_blocks_batches process_batches_metrics process_batches_log)
qed

theorem errors_isolated_witness:
  "fst (get_world_chain_batches sample_node sample_address new_client 100 (Some 102))
     = Inr [make_batch 100 tx_bb, make_batch 100 sample_tx, make_batch 102 tx_ee]
   \<and> eth_get_block sample_node 1 101 = Inl (TransportError ''timed out'')
   \<and> metrics_data (process_batches (\<lambda>b. fst (decode_batch sample_library [] b)) new_main
        [empty_blob_row, sample_row])
     = [\<lparr>batch_block_number = 100, batch_transaction_hash = ''aa'', blobs = []\<rparr>]
   \<and> main_log (process_batches (\<lambda>b. fst (decode_batch sample_library [] b)) new_main
        [empty_blob_row, sample_row])
     = [ErrorProcessingBatch 2 (ValueError ''No blob data found in transaction'')]"
  using errors_isolated [where env = sample_node and addr = sample_address and c = new_client
      and start_block = 100 and end_block = 102
      and decode = "\<lambda>b. fst (decode_batch sample_library [] b)" and st = new_main
      and bs = "[empty_blob_row, sample_row]"]
  by (simp add: batches_of_answer_def decoded_of_def failure_of_def decode_batch_placeholder
      blob_data_of_def empty_blob_row_def new_main_def to_matches_def lower_def lower_char_def
      fixture_defs)

end
